theory Spec2Isabelle
  imports Complex_Main
begin

section \<open>Configuration constants of pinball.py\<close>

text \<open>
  Python floats are read as real numbers throughout: every arithmetic step of the source is
  taken exactly, so rounding of IEEE doubles is outside this development. The power
  \<open>x ** y\<close> on a positive base is \<open>powr\<close>, \<open>Vector2.length()\<close> is the Euclidean norm.
\<close>

definition WIDTH :: real where "WIDTH = 500"
definition HEIGHT :: real where "HEIGHT = 650"
definition GRAVITY :: real where "GRAVITY = 2000"
definition AIR_FRICTION :: real where "AIR_FRICTION = 5 / 10000"
definition RESTI_BALL_WALL :: real where "RESTI_BALL_WALL = 85 / 100"
definition RESTI_BALL_BUMPER :: real where "RESTI_BALL_BUMPER = 105 / 100"
definition RESTI_BALL_FLIPPER :: real where "RESTI_BALL_FLIPPER = 1"
definition TANGENTIAL_FRICTION :: real where "TANGENTIAL_FRICTION = 2 / 100"
definition MAX_BALL_SPEED :: real where "MAX_BALL_SPEED = 2400"
definition BALL_RADIUS :: real where "BALL_RADIUS = 12"
definition BALL_MASS :: real where "BALL_MASS = 1"
definition FLIPPER_LENGTH :: real where "FLIPPER_LENGTH = 140"

definition radians :: "real \<Rightarrow> real" where
  "radians d = d * pi / 180"

definition FLIPPER_SPEED :: real where "FLIPPER_SPEED = radians 900"
definition FLIPPER_LEFT_MIN :: real where "FLIPPER_LEFT_MIN = radians 15"
definition FLIPPER_LEFT_MAX :: real where "FLIPPER_LEFT_MAX = radians 70"
definition FLIPPER_RIGHT_MIN :: real where "FLIPPER_RIGHT_MIN = - radians 70"
definition FLIPPER_RIGHT_MAX :: real where "FLIPPER_RIGHT_MAX = - radians 15"
definition PLUNGER_MAX :: real where "PLUNGER_MAX = 480"
definition PLUNGER_CHARGE_RATE :: real where "PLUNGER_CHARGE_RATE = 900"
definition START_BALLS :: int where "START_BALLS = 3"
definition BALL_SAVE_TIME :: real where "BALL_SAVE_TIME = 8"
definition NUDGE_IMPULSE :: real where "NUDGE_IMPULSE = 260"
definition TILT_MAX :: real where "TILT_MAX = 3"
definition TILT_DECAY :: real where "TILT_DECAY = 4 / 10"
definition TILT_LOCKOUT :: real where "TILT_LOCKOUT = 4"
definition TRAIL_POINTS :: nat where "TRAIL_POINTS = 14"

text \<open>The guard \<open>1e-9\<close> that the collision tests add to every distance.\<close>

definition EPS :: real where "EPS = 1 / 1000000000"

section \<open>Vectors\<close>

type_synonym Vec2 = "real \<times> real"

definition vadd :: "Vec2 \<Rightarrow> Vec2 \<Rightarrow> Vec2" where
  "vadd u v = (fst u + fst v, snd u + snd v)"

definition vsub :: "Vec2 \<Rightarrow> Vec2 \<Rightarrow> Vec2" where
  "vsub u v = (fst u - fst v, snd u - snd v)"

definition smul :: "real \<Rightarrow> Vec2 \<Rightarrow> Vec2" where
  "smul k v = (k * fst v, k * snd v)"

definition sdiv :: "Vec2 \<Rightarrow> real \<Rightarrow> Vec2" where
  "sdiv v k = (fst v / k, snd v / k)"

definition dot :: "Vec2 \<Rightarrow> Vec2 \<Rightarrow> real" where
  "dot u v = fst u * fst v + snd u * snd v"

definition length_squared :: "Vec2 \<Rightarrow> real" where
  "length_squared v = fst v * fst v + snd v * snd v"

definition vlength :: "Vec2 \<Rightarrow> real" where
  "vlength v = sqrt (length_squared v)"

section \<open>Geometry primitives\<close>

definition clamp :: "real \<Rightarrow> real \<Rightarrow> real \<Rightarrow> real" where
  "clamp x lo hi = max lo (min hi x)"

definition reflect :: "Vec2 \<Rightarrow> Vec2 \<Rightarrow> real \<Rightarrow> Vec2" where
  "reflect v n restitution =
     (let vn = dot v n
      in if vn < 0 then vsub v (smul ((1 + restitution) * vn) n) else v)"

text \<open>Result of \<open>circle_line_collision\<close>: (hit, push\_vec, normal, closest\_point, t).\<close>

definition circle_line_collision ::
  "Vec2 \<Rightarrow> real \<Rightarrow> Vec2 \<Rightarrow> Vec2 \<Rightarrow> bool \<times> Vec2 \<times> Vec2 \<times> Vec2 \<times> real" where
  "circle_line_collision c r p q =
     (let ab = vsub q p; ab2 = length_squared ab
      in if ab2 = 0
         then (let diff = vsub c p; dist = vlength diff + EPS
               in if dist < r
                  then (let n = sdiv diff dist in (True, smul (r - dist) n, n, p, 0))
                  else (False, (0, 0), (0, 0), (0, 0), 0))
         else (let t = clamp (dot (vsub c p) ab / ab2) 0 1;
                   closest = vadd p (smul t ab);
                   diff = vsub c closest;
                   dist = vlength diff + EPS
               in if dist < r
                  then (let n = sdiv diff dist in (True, smul (r - dist) n, n, closest, t))
                  else (False, (0, 0), (0, 0), closest, t)))"

text \<open>Result of \<open>circle_circle_collision\<close>: (hit, push, normal).\<close>

definition circle_circle_collision ::
  "Vec2 \<Rightarrow> real \<Rightarrow> Vec2 \<Rightarrow> real \<Rightarrow> bool \<times> Vec2 \<times> Vec2" where
  "circle_circle_collision c1 r1 c2 r2 =
     (let diff = vsub c1 c2; d = vlength diff + EPS
      in if d < r1 + r2
         then (let n = sdiv diff d in (True, smul (r1 + r2 - d) n, n))
         else (False, (0, 0), (0, 0)))"

section \<open>Table entities\<close>

text \<open>Colours are read by the drawing code only and are left out of the records.\<close>

record Wall =
  wall_a :: Vec2
  wall_b :: Vec2
  wall_score :: int
  wall_restitution :: real

record Bumper =
  bumper_pos :: Vec2
  bumper_radius :: real
  bumper_score :: int

record Rollover =
  rollover_pos :: Vec2
  rollover_radius :: real
  lit :: bool
  rollover_score :: int

text \<open>
  \<open>Rollover.check\<close> mutates the sensor and returns whether it was newly lit; here it
  returns the flag together with the sensor after the call.
\<close>

definition check :: "Rollover \<Rightarrow> Vec2 \<Rightarrow> real \<Rightarrow> bool \<times> Rollover" where
  "check r ball_pos ball_r =
     (if lit r then (False, r)
      else if vlength (vsub ball_pos (rollover_pos r)) < rollover_radius r + ball_r * (6 / 10)
      then (True, r\<lparr>lit := True\<rparr>)
      else (False, r))"

section \<open>Flipper\<close>

record Flipper =
  pivot :: Vec2
  flipper_length :: real
  is_left :: bool
  angle :: real
  min_angle :: real
  max_angle :: real
  key_pressed :: bool
  ang_vel :: real

definition Flipper_init :: "Vec2 \<Rightarrow> real \<Rightarrow> bool \<Rightarrow> Flipper" where
  "Flipper_init pv len left =
     (if left
      then \<lparr>pivot = pv, flipper_length = len, is_left = left, angle = FLIPPER_LEFT_MIN,
            min_angle = FLIPPER_LEFT_MIN, max_angle = FLIPPER_LEFT_MAX,
            key_pressed = False, ang_vel = 0\<rparr>
      else \<lparr>pivot = pv, flipper_length = len, is_left = left, angle = FLIPPER_RIGHT_MIN,
            min_angle = FLIPPER_RIGHT_MIN, max_angle = FLIPPER_RIGHT_MAX,
            key_pressed = False, ang_vel = 0\<rparr>)"

definition endpoints :: "Flipper \<Rightarrow> Vec2 \<times> Vec2" where
  "endpoints f =
     (let dir_vec = (cos (angle f), - sin (angle f));
          tip = vadd (pivot f) (smul (flipper_length f) dir_vec)
      in (pivot f, tip))"

definition flipper_target :: "Flipper \<Rightarrow> real" where
  "flipper_target f = (if key_pressed f then max_angle f else min_angle f)"

definition Flipper_update :: "real \<Rightarrow> Flipper \<Rightarrow> Flipper" where
  "Flipper_update dt f =
     (let target = flipper_target f;
          prev_angle = angle f;
          new_angle =
            (if angle f < target then min (angle f + FLIPPER_SPEED * dt) target
             else if angle f > target then max (angle f - FLIPPER_SPEED * dt) target
             else angle f)
      in f\<lparr>angle := new_angle, ang_vel := (new_angle - prev_angle) / max dt (1 / 1000000)\<rparr>)"

section \<open>Ball\<close>

record Ball =
  pos :: Vec2
  vel :: Vec2
  radius :: real
  mass :: real
  in_play :: bool
  trail :: "Vec2 list"

definition Ball_init :: "Vec2 \<Rightarrow> Ball" where
  "Ball_init p =
     \<lparr>pos = p, vel = (0, 0), radius = BALL_RADIUS, mass = BALL_MASS, in_play = False, trail = []\<rparr>"

text \<open>Appending to a \<open>deque\<close> of bounded length drops the oldest entry once it is full.\<close>

definition trail_append :: "Vec2 \<Rightarrow> Vec2 list \<Rightarrow> Vec2 list" where
  "trail_append p t = (if length t \<ge> TRAIL_POINTS then tl t @ [p] else t @ [p])"

text \<open>The velocity after the gravity and drag steps of \<open>apply_physics\<close>, before the clamp.\<close>

definition gravity_drag :: "real \<Rightarrow> Vec2 \<Rightarrow> Vec2" where
  "gravity_drag dt v = smul ((1 - AIR_FRICTION) powr (dt * 60)) (fst v, snd v + GRAVITY * dt)"

definition clamp_speed :: "Vec2 \<Rightarrow> Vec2" where
  "clamp_speed v =
     (let sp = vlength v in if sp > MAX_BALL_SPEED then smul (MAX_BALL_SPEED / sp) v else v)"

definition apply_physics :: "real \<Rightarrow> Ball \<Rightarrow> Ball" where
  "apply_physics dt b =
     (if \<not> in_play b then b
      else (let v = clamp_speed (gravity_drag dt (vel b));
                p = vadd (pos b) (smul dt v)
            in b\<lparr>vel := v, pos := p, trail := trail_append p (trail b)\<rparr>))"

section \<open>Game state\<close>

text \<open>
  The session object of class \<open>Game\<close>. The window, clock, pre-drawn background and the
  particle list are presentation state that no rule reads back and are left out, with
  \<open>spawn_particles\<close> and \<open>particles_update\<close>, which write the particle list only. The
  file \<open>highscore.txt\<close> is the field \<open>highscore_file\<close> (\<open>None\<close>: no readable
  number stored). Whether a write to it succeeds is an argument of \<open>save_high_score\<close> and
  of the operations that reach it: the source swallows every exception of the write, which
  then leaves the file as it was. Values drawn from \<open>random\<close> that reach the game state
  (nudge direction, launch angle) are arguments of the operations.
\<close>

record Game =
  running :: bool
  walls :: "Wall list"
  bumpers :: "Bumper list"
  rollovers :: "Rollover list"
  left_flipper :: Flipper
  right_flipper :: Flipper
  ball :: Ball
  plunger_power :: real
  ball_save_timer :: real
  ball_save_active :: bool
  score :: int
  high_score :: int
  balls_left :: int
  paused :: bool
  game_over :: bool
  just_lost :: bool
  bonus_mult :: int
  bumper_mult :: int
  bumper_mult_timer :: real
  tilt_meter :: real
  tilt_active :: bool
  tilt_timer :: real
  highscore_file :: "int option"

definition launch_lane :: Vec2 where
  "launch_lane = (WIDTH - 140, HEIGHT - 140)"

definition load_high_score :: "int option \<Rightarrow> int" where
  "load_high_score file = (case file of Some n \<Rightarrow> n | None \<Rightarrow> 0)"

text \<open>
  \<open>save_high_score\<close>: \<open>write_ok\<close> says whether \<open>path.write_text\<close> returns; when it
  raises, the \<open>except Exception: pass\<close> branch runs and nothing is stored.
\<close>

definition save_high_score :: "bool \<Rightarrow> Game \<Rightarrow> Game" where
  "save_high_score write_ok g =
     (if write_ok then g\<lparr>highscore_file := Some (high_score g)\<rparr> else g)"

definition table_walls :: "Wall list" where
  "table_walls =
     (let margin = 80; bottom_y = HEIGHT - 80
      in [\<lparr>wall_a = (margin, 140), wall_b = (margin, bottom_y),
            wall_score = 5, wall_restitution = RESTI_BALL_WALL\<rparr>,
          \<lparr>wall_a = (margin, 140), wall_b = (WIDTH - margin - 100, 140),
            wall_score = 5, wall_restitution = RESTI_BALL_WALL\<rparr>,
          \<lparr>wall_a = (WIDTH - margin - 100, 140), wall_b = (WIDTH - margin - 100, bottom_y - 180),
            wall_score = 5, wall_restitution = RESTI_BALL_WALL\<rparr>,
          \<lparr>wall_a = (margin, bottom_y), wall_b = (WIDTH / 2 - 80, HEIGHT - 20),
            wall_score = 5, wall_restitution = RESTI_BALL_WALL\<rparr>,
          \<lparr>wall_a = (WIDTH - margin - 100, bottom_y - 180),
            wall_b = (WIDTH - margin - 60, bottom_y - 60),
            wall_score = 5, wall_restitution = RESTI_BALL_WALL\<rparr>,
          \<lparr>wall_a = (WIDTH - margin - 60, bottom_y - 60), wall_b = (WIDTH / 2 + 80, HEIGHT - 20),
            wall_score = 5, wall_restitution = RESTI_BALL_WALL\<rparr>,
          \<lparr>wall_a = (WIDTH * (28 / 100), bottom_y - 40),
            wall_b = (WIDTH * (42 / 100), bottom_y - 110),
            wall_score = 25, wall_restitution = 12 / 10\<rparr>,
          \<lparr>wall_a = (WIDTH * (72 / 100), bottom_y - 40),
            wall_b = (WIDTH * (58 / 100), bottom_y - 110),
            wall_score = 25, wall_restitution = 12 / 10\<rparr>])"

definition table_bumpers :: "Bumper list" where
  "table_bumpers =
     [\<lparr>bumper_pos = (WIDTH * (35 / 100), 300), bumper_radius = 38, bumper_score = 150\<rparr>,
      \<lparr>bumper_pos = (WIDTH * (55 / 100), 300), bumper_radius = 38, bumper_score = 150\<rparr>,
      \<lparr>bumper_pos = (WIDTH * (45 / 100), 220), bumper_radius = 38, bumper_score = 200\<rparr>,
      \<lparr>bumper_pos = (WIDTH * (32 / 100), 480), bumper_radius = 28, bumper_score = 100\<rparr>,
      \<lparr>bumper_pos = (WIDTH * (58 / 100), 520), bumper_radius = 28, bumper_score = 100\<rparr>,
      \<lparr>bumper_pos = (WIDTH * (46 / 100), 620), bumper_radius = 24, bumper_score = 75\<rparr>]"

definition Rollover_init :: "Vec2 \<Rightarrow> Rollover" where
  "Rollover_init p =
     \<lparr>rollover_pos = p, rollover_radius = 14, lit = False, rollover_score = 250\<rparr>"

definition table_rollovers :: "Rollover list" where
  "table_rollovers =
     [Rollover_init (WIDTH * (35 / 100), 160),
      Rollover_init (WIDTH * (45 / 100), 160),
      Rollover_init (WIDTH * (55 / 100), 160)]"

definition Game_init :: "int option \<Rightarrow> Game" where
  "Game_init file =
     (let pivot_y = HEIGHT - 120
      in \<lparr>running = True, walls = table_walls, bumpers = table_bumpers,
           rollovers = table_rollovers,
           left_flipper = Flipper_init (WIDTH * (35 / 100), pivot_y) FLIPPER_LENGTH True,
           right_flipper = Flipper_init (WIDTH * (65 / 100), pivot_y) FLIPPER_LENGTH False,
           ball = Ball_init launch_lane, plunger_power = 0, ball_save_timer = 0,
           ball_save_active = False, score = 0, high_score = load_high_score file,
           balls_left = START_BALLS, paused = False, game_over = False, just_lost = False,
           bonus_mult = 1, bumper_mult = 1, bumper_mult_timer = 0, tilt_meter = 0,
           tilt_active = False, tilt_timer = 0, highscore_file = file\<rparr>)"

definition reset_ball :: "Game \<Rightarrow> Game" where
  "reset_ball g =
     g\<lparr>ball := Ball_init launch_lane, plunger_power := 0, just_lost := False,
       ball_save_active := False, ball_save_timer := 0\<rparr>"

text \<open>\<open>launch_ball\<close>; the argument \<open>ang\<close> is the angle drawn by \<open>random.uniform\<close>.\<close>

definition launch_ball :: "real \<Rightarrow> Game \<Rightarrow> Game" where
  "launch_ball ang g =
     (if in_play (ball g) then g
      else (let speed = plunger_power g + 400;
                vx = cos ang * speed;
                vy = - sin ang * speed
            in g\<lparr>ball := (ball g)\<lparr>vel := (vx, vy), in_play := True\<rparr>,
                 plunger_power := 0, ball_save_active := True,
                 ball_save_timer := BALL_SAVE_TIME\<rparr>))"

text \<open>\<open>do_nudge\<close>; the argument \<open>dir_sign\<close> is the value of \<open>random.choice([-1, 1])\<close>.\<close>

definition do_nudge :: "int \<Rightarrow> Game \<Rightarrow> Game" where
  "do_nudge dir_sign g =
     (let b = ball g;
          g1 = g\<lparr>ball := b\<lparr>vel := (fst (vel b) + real_of_int dir_sign * NUDGE_IMPULSE, snd (vel b))\<rparr>,
                 tilt_meter := tilt_meter g + 1\<rparr>
      in if tilt_meter g1 \<ge> TILT_MAX \<and> \<not> tilt_active g1
         then g1\<lparr>tilt_active := True, tilt_timer := TILT_LOCKOUT,
                 left_flipper := (left_flipper g1)\<lparr>key_pressed := False\<rparr>,
                 right_flipper := (right_flipper g1)\<lparr>key_pressed := False\<rparr>\<rparr>
         else g1)"

definition restart :: "Game \<Rightarrow> Game" where
  "restart g =
     (let g1 = reset_ball (g\<lparr>score := 0, balls_left := START_BALLS, game_over := False,
                              paused := False\<rparr>)
      in g1\<lparr>bonus_mult := 1, bumper_mult := 1, bumper_mult_timer := 0,
            rollovers := map (\<lambda>r. r\<lparr>lit := False\<rparr>) (rollovers g1),
            tilt_meter := 0, tilt_active := False\<rparr>)"

section \<open>Input events\<close>

datatype key = K_ESCAPE | K_LEFT | K_z | K_RIGHT | K_SLASH | K_QUESTION | K_p | K_r | K_n
  | K_SPACE | K_other

datatype event = QUIT | KEYDOWN key | KEYUP key | OTHER

text \<open>
  The body of the event loop of \<open>handle_events\<close> for one event. The independent
  \<open>if\<close> statements of the key-down branch run in the source's order, each on the state
  the previous one left.
\<close>

definition key_down :: "int \<Rightarrow> key \<Rightarrow> Game \<Rightarrow> Game" where
  "key_down dir_sign k g =
     (let g1 = (if k = K_ESCAPE then g\<lparr>running := False\<rparr> else g);
          g2 = (if \<not> tilt_active g1 \<and> k \<in> {K_LEFT, K_z}
                then g1\<lparr>left_flipper := (left_flipper g1)\<lparr>key_pressed := True\<rparr>\<rparr> else g1);
          g3 = (if \<not> tilt_active g2 \<and> k \<in> {K_RIGHT, K_SLASH, K_QUESTION}
                then g2\<lparr>right_flipper := (right_flipper g2)\<lparr>key_pressed := True\<rparr>\<rparr> else g2);
          g4 = (if k = K_p then (if \<not> game_over g3 then g3\<lparr>paused := \<not> paused g3\<rparr> else g3)
                else g3);
          g5 = (if k = K_r then (if game_over g4 then restart g4 else g4) else g4)
      in if k = K_n \<and> in_play (ball g5) \<and> \<not> paused g5 \<and> \<not> game_over g5
         then do_nudge dir_sign g5 else g5)"

definition key_up :: "key \<Rightarrow> Game \<Rightarrow> Game" where
  "key_up k g =
     (let g1 = (if k \<in> {K_LEFT, K_z}
                then g\<lparr>left_flipper := (left_flipper g)\<lparr>key_pressed := False\<rparr>\<rparr> else g)
      in if k \<in> {K_RIGHT, K_SLASH, K_QUESTION}
         then g1\<lparr>right_flipper := (right_flipper g1)\<lparr>key_pressed := False\<rparr>\<rparr> else g1)"

fun handle_event :: "int \<Rightarrow> event \<Rightarrow> Game \<Rightarrow> Game" where
  "handle_event dir_sign QUIT g = g\<lparr>running := False\<rparr>"
| "handle_event dir_sign (KEYDOWN k) g = key_down dir_sign k g"
| "handle_event dir_sign (KEYUP k) g = key_up k g"
| "handle_event dir_sign OTHER g = g"

text \<open>
  \<open>handle_events\<close>: the queued events, each paired with the nudge direction it would draw,
  then the plunger; \<open>space\<close> is whether the space bar is held and \<open>ang\<close> the launch angle
  a launch would draw.
\<close>

definition plunger :: "real \<Rightarrow> bool \<Rightarrow> real \<Rightarrow> Game \<Rightarrow> Game" where
  "plunger dt space ang g =
     (if \<not> in_play (ball g) \<and> \<not> game_over g \<and> \<not> paused g
      then (if space
            then g\<lparr>plunger_power := clamp (plunger_power g + PLUNGER_CHARGE_RATE * dt) 0 PLUNGER_MAX\<rparr>
            else if plunger_power g > 0 then launch_ball ang g else g)
      else g)"

definition handle_events :: "real \<Rightarrow> (int \<times> event) list \<Rightarrow> bool \<Rightarrow> real \<Rightarrow> Game \<Rightarrow> Game" where
  "handle_events dt evs space ang g =
     plunger dt space ang (fold (\<lambda>(d, e). handle_event d e) evs g)"

section \<open>Collision handlers\<close>

definition wall_hit :: "Wall \<Rightarrow> Game \<Rightarrow> Game" where
  "wall_hit w g =
     (case circle_line_collision (pos (ball g)) (radius (ball g)) (wall_a w) (wall_b w) of
        (hit, push, n, _, _) \<Rightarrow>
          if hit
          then (let b = ball g;
                    t = (- snd n, fst n);
                    vt = dot (vel b) t * (1 - TANGENTIAL_FRICTION);
                    vn = dot (vel b) n;
                    v = reflect (vadd (smul vt t) (smul vn n)) n (wall_restitution w);
                    g1 = g\<lparr>ball := b\<lparr>pos := vadd (pos b) push, vel := v\<rparr>\<rparr>
                in if in_play b then g1\<lparr>score := score g1 + wall_score w\<rparr> else g1)
          else g)"

definition boundary_clamp :: "Ball \<Rightarrow> Ball" where
  "boundary_clamp b =
     (let margin = 74;
          b1 = (if fst (pos b) - radius b < margin
                then b\<lparr>pos := (margin + radius b, snd (pos b)),
                       vel := (\<bar>fst (vel b)\<bar> * RESTI_BALL_WALL, snd (vel b))\<rparr>
                else b);
          b2 = (if fst (pos b1) + radius b1 > WIDTH - 160
                then b1\<lparr>pos := (WIDTH - 160 - radius b1, snd (pos b1)),
                        vel := (- \<bar>fst (vel b1)\<bar> * RESTI_BALL_WALL, snd (vel b1))\<rparr>
                else b1)
      in if snd (pos b2) - radius b2 < 120 + 16
         then b2\<lparr>pos := (fst (pos b2), 120 + 16 + radius b2),
                 vel := (fst (vel b2), \<bar>snd (vel b2)\<bar> * RESTI_BALL_WALL)\<rparr>
         else b2)"

definition handle_wall_collisions :: "Game \<Rightarrow> Game" where
  "handle_wall_collisions g =
     (let g1 = fold wall_hit (walls g) g in g1\<lparr>ball := boundary_clamp (ball g1)\<rparr>)"

definition bumper_hit :: "Bumper \<Rightarrow> Game \<Rightarrow> Game" where
  "bumper_hit bm g =
     (case circle_circle_collision (pos (ball g)) (radius (ball g)) (bumper_pos bm) (bumper_radius bm) of
        (hit, push, n) \<Rightarrow>
          if hit
          then (let b = ball g;
                    v = vadd (reflect (vel b) n RESTI_BALL_BUMPER) (smul 200 n);
                    g1 = g\<lparr>ball := b\<lparr>pos := vadd (pos b) push, vel := v\<rparr>\<rparr>
                in if in_play b then g1\<lparr>score := score g1 + bumper_score bm * bumper_mult g1\<rparr>
                   else g1)
          else g)"

definition handle_bumper_collisions :: "Game \<Rightarrow> Game" where
  "handle_bumper_collisions g = fold bumper_hit (bumpers g) g"

text \<open>
  The first loop of \<open>handle_rollovers\<close>: the sensors after their checks and the score.
  The local counter \<open>newly\<close> is never read and is not carried.
\<close>

fun check_rollovers :: "Ball \<Rightarrow> Rollover list \<Rightarrow> int \<Rightarrow> Rollover list \<times> int" where
  "check_rollovers b [] sc = ([], sc)"
| "check_rollovers b (r # rs) sc =
     (case check r (pos b) (radius b) of
        (newly_lit, r') \<Rightarrow>
          (let sc' = (if newly_lit \<and> in_play b then sc + rollover_score r' else sc)
           in case check_rollovers b rs sc' of (rs', sc'') \<Rightarrow> (r' # rs', sc'')))"

definition handle_rollovers :: "Game \<Rightarrow> Game" where
  "handle_rollovers g =
     (case check_rollovers (ball g) (rollovers g) (score g) of
        (rs, sc) \<Rightarrow>
          (let g1 = g\<lparr>rollovers := rs, score := sc\<rparr>
           in if in_play (ball g1) \<and> list_all lit (rollovers g1)
              then g1\<lparr>score := score g1 + 1000, bumper_mult := 2, bumper_mult_timer := 15,
                      rollovers := map (\<lambda>r. r\<lparr>lit := False\<rparr>) (rollovers g1)\<rparr>
              else g1))"

definition handle_flipper_collision :: "Flipper \<Rightarrow> Game \<Rightarrow> Game" where
  "handle_flipper_collision flipper g =
     (case endpoints flipper of
        (p, q) \<Rightarrow>
          (case circle_line_collision (pos (ball g)) (radius (ball g)) p q of
             (hit, push, n, contact, t) \<Rightarrow>
               if \<not> hit then g
               else (let b = ball g;
                         v = reflect (vel b) n RESTI_BALL_FLIPPER;
                         r = vsub contact (pivot flipper);
                         v_point = smul (ang_vel flipper) (- snd r, fst r);
                         boost = dot v_point n;
                         v' = (if boost > 0 then vadd v (smul (boost * (9 / 10)) n) else v);
                         g1 = g\<lparr>ball := b\<lparr>pos := vadd (pos b) push, vel := v'\<rparr>\<rparr>
                     in if in_play b then g1\<lparr>score := score g1 + 1\<rparr> else g1)))"

section \<open>The frame update\<close>

definition bonus_timers :: "real \<Rightarrow> Game \<Rightarrow> Game" where
  "bonus_timers dt g =
     (if bumper_mult_timer g > 0
      then (let g1 = g\<lparr>bumper_mult_timer := bumper_mult_timer g - dt\<rparr>
            in if bumper_mult_timer g1 \<le> 0 then g1\<lparr>bumper_mult := 1\<rparr> else g1)
      else g)"

definition tilt_timers :: "real \<Rightarrow> Game \<Rightarrow> Game" where
  "tilt_timers dt g =
     (if tilt_active g
      then (let g1 = g\<lparr>tilt_timer := tilt_timer g - dt\<rparr>
            in if tilt_timer g1 \<le> 0 then g1\<lparr>tilt_active := False\<rparr> else g1)
      else g\<lparr>tilt_meter := max 0 (tilt_meter g - TILT_DECAY * dt)\<rparr>)"

definition ball_save_timers :: "real \<Rightarrow> Game \<Rightarrow> Game" where
  "ball_save_timers dt g =
     (if ball_save_active g
      then (let g1 = g\<lparr>ball_save_timer := ball_save_timer g - dt\<rparr>
            in if ball_save_timer g1 \<le> 0 then g1\<lparr>ball_save_active := False\<rparr> else g1)
      else g)"

text \<open>The drain check that ends \<open>update\<close>.\<close>

definition drain_check :: "bool \<Rightarrow> Game \<Rightarrow> Game" where
  "drain_check write_ok g =
     (if in_play (ball g) \<and> snd (pos (ball g)) - radius (ball g) > HEIGHT + 40
      then (if ball_save_active g
            then reset_ball (g\<lparr>ball := (ball g)\<lparr>in_play := False\<rparr>\<rparr>)
            else (let g1 = g\<lparr>balls_left := balls_left g - 1,
                              ball := (ball g)\<lparr>in_play := False\<rparr>, just_lost := True\<rparr>
                  in if balls_left g1 \<le> 0
                     then save_high_score write_ok
                            (g1\<lparr>game_over := True, high_score := max (high_score g1) (score g1)\<rparr>)
                     else reset_ball g1))
      else g)"

text \<open>
  \<open>update\<close> is split at its last block: \<open>update_steps\<close> is everything from the flipper
  updates to the ball-save timer, and the drain check runs on the state they leave.
\<close>

definition update_steps :: "real \<Rightarrow> Game \<Rightarrow> Game" where
  "update_steps dt g =
     (let g1 = g\<lparr>left_flipper := Flipper_update dt (left_flipper g)\<rparr>;
          g2 = g1\<lparr>right_flipper := Flipper_update dt (right_flipper g1)\<rparr>;
          g3 = g2\<lparr>ball := apply_physics dt (ball g2)\<rparr>;
          g4 = handle_wall_collisions g3;
          g5 = handle_bumper_collisions g4;
          g6 = handle_rollovers g5;
          g7 = handle_flipper_collision (left_flipper g6) g6;
          g8 = handle_flipper_collision (right_flipper g7) g7;
          g9 = bonus_timers dt g8;
          g10 = tilt_timers dt g9
      in ball_save_timers dt g10)"

definition update :: "bool \<Rightarrow> real \<Rightarrow> Game \<Rightarrow> Game" where
  "update write_ok dt g =
     (if paused g \<or> game_over g then g else drain_check write_ok (update_steps dt g))"

section \<open>Projections and example states\<close>

text \<open>The session fields that no step of \<open>update\<close> before the drain check writes.\<close>

definition session :: "Game \<Rightarrow> int \<times> int \<times> bool \<times> bool \<times> int option" where
  "session g = (balls_left g, high_score g, game_over g, paused g, highscore_file g)"

text \<open>
  A ball falling between the flippers just above the drain line, the same ball one step of
  1/60 s later, and two sessions holding it on their last ball: without and with ball save.
\<close>

definition drain_ball :: Ball where
  "drain_ball = (Ball_init (250, 700))\<lparr>vel := (0, 600), in_play := True\<rparr>"

definition drained_ball :: Ball where
  "drained_ball = drain_ball\<lparr>vel := (0, 37981 / 60), pos := (250, 2557981 / 3600),
     trail := [(250, 2557981 / 3600)]\<rparr>"

definition drain_game :: Game where
  "drain_game =
     (Game_init (Some 500))\<lparr>ball := drain_ball,
                            balls_left := 1, score := 900\<rparr>"

definition drain_game_saved :: Game where
  "drain_game_saved = drain_game\<lparr>ball_save_active := True, ball_save_timer := 5\<rparr>"

text \<open>
  A session played through its inputs: the plunger is charged for 0.1 s and released, the
  table is nudged twice, then a third time.
\<close>

definition launched_game :: Game where
  "launched_game =
     handle_events (1 / 10) [] False 2
       (handle_events (1 / 10) [] True 2 (reset_ball (Game_init None)))"

definition nudged_twice :: Game where
  "nudged_twice =
     handle_events (1 / 120) [(1, KEYDOWN K_n), (- 1, KEYDOWN K_n)] False 2 launched_game"

definition tilted_game :: Game where
  "tilted_game = handle_events (1 / 120) [(1, KEYDOWN K_n)] False 2 nudged_twice"

text \<open>
  The fresh table with the first two rollovers lit and the ball in play on the third.
\<close>

definition rollover_play_game :: Game where
  "rollover_play_game =
     (Game_init None)\<lparr>rollovers := [(Rollover_init (WIDTH * (35 / 100), 160))\<lparr>lit := True\<rparr>,
                                   (Rollover_init (WIDTH * (45 / 100), 160))\<lparr>lit := True\<rparr>,
                                   Rollover_init (WIDTH * (55 / 100), 160)],
                      ball := (Ball_init (WIDTH * (55 / 100), 160))\<lparr>in_play := True\<rparr>\<rparr>"

text \<open>
  A ball in play 35 px straight above the centre of the lowest bumper, moving straight down
  at 300 px/s.
\<close>

definition bumper_shot :: Game where
  "bumper_shot =
     (Game_init None)\<lparr>ball := (Ball_init (WIDTH * (46 / 100), 585))\<lparr>vel := (0, 300), in_play := True\<rparr>\<rparr>"

text \<open>
  The session as \<open>run\<close> starts it, with the idle ball at the launch lane, and the same
  session after the wall handler of the first frame.
\<close>

definition idle_game :: Game where
  "idle_game = reset_ball (Game_init None)"

definition idle_clamped :: Game where
  "idle_clamped = handle_wall_collisions idle_game"

section \<open>Auxiliary facts about vectors and the collision tests\<close>

lemma vlength_smul: "vlength (smul k v) = \<bar>k\<bar> * vlength v"
proof -
  have "length_squared (smul k v) = k\<^sup>2 * length_squared v"
    by (simp add: length_squared_def smul_def power2_eq_square algebra_simps)
  then show ?thesis
    by (simp add: vlength_def real_sqrt_mult)
qed

lemma vlength_nonneg: "0 \<le> vlength v"
  by (simp add: vlength_def length_squared_def)

lemma vlength_vertical: "vlength (0, y) = \<bar>y\<bar>"
  by (simp add: vlength_def length_squared_def)

lemma length_squared_nonneg: "0 \<le> length_squared v"
  by (simp add: length_squared_def)

lemma vlength_eps_less: "e < r \<Longrightarrow> (vlength v + e < r) = (length_squared v < (r - e)\<^sup>2)"
proof -
  assume h: "e < r"
  have "(vlength v + e < r) = (sqrt (length_squared v) < r - e)"
    by (auto simp add: vlength_def)
  also have "\<dots> = (sqrt (length_squared v) < sqrt ((r - e)\<^sup>2))"
    using h by simp
  also have "\<dots> = (length_squared v < (r - e)\<^sup>2)"
    by (rule real_sqrt_less_iff)
  finally show ?thesis .
qed

lemma vlength_less: "0 < r \<Longrightarrow> (vlength v < r) = (length_squared v < r\<^sup>2)"
  using vlength_eps_less [of 0 r v] by simp

lemma vlength_cmod: "vlength v = cmod (Complex (fst v) (snd v))"
  by (simp add: vlength_def length_squared_def cmod_def power2_eq_square)

lemma vlength_triangle: "vlength (vsub u w) \<le> vlength (vsub u v) + vlength (vsub v w)"
proof -
  have "Complex (fst u - fst w) (snd u - snd w) =
        Complex (fst u - fst v) (snd u - snd v) + Complex (fst v - fst w) (snd v - snd w)"
    by (simp add: complex_eq_iff)
  then show ?thesis
    using norm_triangle_ineq [of "Complex (fst u - fst v) (snd u - snd v)"
      "Complex (fst v - fst w) (snd v - snd w)"]
    by (simp add: vlength_cmod vsub_def)
qed

lemma vsub_vadd_cancel: "vsub (vadd p w) p = w"
  by (simp add: vsub_def vadd_def)

lemmas vec_simps = vsub_def vadd_def smul_def sdiv_def dot_def length_squared_def clamp_def
  power2_eq_square

lemma hit_line_iff:
  "fst (circle_line_collision c r p q) =
     (if length_squared (vsub q p) = 0 then vlength (vsub c p) + EPS < r
      else vlength (vsub c (vadd p (smul (clamp (dot (vsub c p) (vsub q p) / length_squared (vsub q p)) 0 1) (vsub q p)))) + EPS < r)"
  by (simp add: circle_line_collision_def Let_def)

lemma hit_circle_iff:
  "fst (circle_circle_collision c1 r1 c2 r2) = (vlength (vsub c1 c2) + EPS < r1 + r2)"
  by (simp add: circle_circle_collision_def Let_def)

lemma circle_line_far:
  assumes "vlength (vsub q p) + r \<le> vlength (vsub c p)"
  shows "\<not> fst (circle_line_collision c r p q)"
proof -
  have far: "\<not> vlength (vsub c (vadd p (smul t (vsub q p)))) + EPS < r"
    if t: "0 \<le> t" "t \<le> 1" for t
  proof -
    let ?x = "vadd p (smul t (vsub q p))"
    have "vlength (vsub ?x p) = t * vlength (vsub q p)"
      using t by (simp add: vsub_vadd_cancel vlength_smul)
    also have "\<dots> \<le> vlength (vsub q p)"
      using t vlength_nonneg [of "vsub q p"] by (simp add: mult_left_le_one_le)
    finally have "vlength (vsub ?x p) \<le> vlength (vsub q p)" .
    moreover have "vlength (vsub c p) \<le> vlength (vsub c ?x) + vlength (vsub ?x p)"
      by (rule vlength_triangle)
    ultimately have "r \<le> vlength (vsub c ?x)"
      using assms by linarith
    then show ?thesis by (simp add: EPS_def)
  qed
  have c: "0 \<le> clamp x 0 1 \<and> clamp x 0 1 \<le> 1" for x
    by (simp add: clamp_def)
  have "r \<le> vlength (vsub c p)"
    using assms vlength_nonneg [of "vsub q p"] by linarith
  then have deg: "\<not> vlength (vsub c p) + EPS < r"
    by (simp add: EPS_def)
  show ?thesis
    using far c deg by (simp add: hit_line_iff)
qed

lemma endpoints_span:
  "0 \<le> flipper_length f \<Longrightarrow> vlength (vsub (snd (endpoints f)) (fst (endpoints f))) = flipper_length f"
proof -
  assume h: "0 \<le> flipper_length f"
  have "length_squared (cos (angle f), - sin (angle f)) = 1"
    by (simp add: length_squared_def power2_eq_square [symmetric])
  then have "vlength (cos (angle f), - sin (angle f)) = 1"
    by (simp add: vlength_def)
  then show ?thesis
    using h by (simp add: endpoints_def Let_def vsub_vadd_cancel vlength_smul)
qed

lemma vlength_ge_fst: "r \<le> \<bar>fst v\<bar> \<Longrightarrow> \<not> vlength v + EPS < r"
proof -
  assume h: "r \<le> \<bar>fst v\<bar>"
  have "\<bar>fst v\<bar> \<le> vlength v"
    unfolding vlength_def length_squared_def
    by (rule real_le_rsqrt) (simp add: power2_eq_square)
  then show ?thesis using h by (simp add: EPS_def)
qed

lemma dot_self: "dot v v = (vlength v)\<^sup>2"
  by (simp add: dot_def vlength_def length_squared_def)

lemma dot_linear:
  "dot (vadd u w) z = dot u z + dot w z"
  "dot (vsub u w) z = dot u z - dot w z"
  "dot (smul c u) z = c * dot u z"
  by (simp_all add: dot_def vadd_def vsub_def smul_def algebra_simps)

lemma dot_sdiv:
  "dot (sdiv u c) z = dot u z / c"
  "dot z (sdiv u c) = dot z u / c"
  by (simp_all add: dot_def sdiv_def add_divide_distrib)

lemma table_walls_eq:
  "table_walls =
     [\<lparr>wall_a = (80, 140), wall_b = (80, 570), wall_score = 5, wall_restitution = RESTI_BALL_WALL\<rparr>,
      \<lparr>wall_a = (80, 140), wall_b = (320, 140), wall_score = 5, wall_restitution = RESTI_BALL_WALL\<rparr>,
      \<lparr>wall_a = (320, 140), wall_b = (320, 390), wall_score = 5, wall_restitution = RESTI_BALL_WALL\<rparr>,
      \<lparr>wall_a = (80, 570), wall_b = (170, 630), wall_score = 5, wall_restitution = RESTI_BALL_WALL\<rparr>,
      \<lparr>wall_a = (320, 390), wall_b = (360, 510), wall_score = 5, wall_restitution = RESTI_BALL_WALL\<rparr>,
      \<lparr>wall_a = (360, 510), wall_b = (330, 630), wall_score = 5, wall_restitution = RESTI_BALL_WALL\<rparr>,
      \<lparr>wall_a = (140, 530), wall_b = (210, 460), wall_score = 25, wall_restitution = 12 / 10\<rparr>,
      \<lparr>wall_a = (360, 530), wall_b = (290, 460), wall_score = 25, wall_restitution = 12 / 10\<rparr>]"
  by (simp add: table_walls_def Let_def WIDTH_def HEIGHT_def)

lemma table_bumpers_eq:
  "table_bumpers =
     [\<lparr>bumper_pos = (175, 300), bumper_radius = 38, bumper_score = 150\<rparr>,
      \<lparr>bumper_pos = (275, 300), bumper_radius = 38, bumper_score = 150\<rparr>,
      \<lparr>bumper_pos = (225, 220), bumper_radius = 38, bumper_score = 200\<rparr>,
      \<lparr>bumper_pos = (160, 480), bumper_radius = 28, bumper_score = 100\<rparr>,
      \<lparr>bumper_pos = (290, 520), bumper_radius = 28, bumper_score = 100\<rparr>,
      \<lparr>bumper_pos = (230, 620), bumper_radius = 24, bumper_score = 75\<rparr>]"
  by (simp add: table_bumpers_def WIDTH_def)

section \<open>Handlers that miss\<close>

lemma wall_hit_miss:
  "\<not> fst (circle_line_collision (pos (ball g)) (radius (ball g)) (wall_a w) (wall_b w))
   \<Longrightarrow> wall_hit w g = g"
  by (auto simp add: wall_hit_def split: prod.splits)

lemma fold_wall_hit_miss:
  "\<forall>w \<in> set ws. \<not> fst (circle_line_collision (pos (ball g)) (radius (ball g)) (wall_a w) (wall_b w))
   \<Longrightarrow> fold wall_hit ws g = g"
  by (induction ws) (simp_all add: wall_hit_miss)

lemma bumper_hit_miss:
  "\<not> fst (circle_circle_collision (pos (ball g)) (radius (ball g)) (bumper_pos bm) (bumper_radius bm))
   \<Longrightarrow> bumper_hit bm g = g"
  by (auto simp add: bumper_hit_def split: prod.splits)

lemma fold_bumper_hit_miss:
  "\<forall>bm \<in> set bs. \<not> fst (circle_circle_collision (pos (ball g)) (radius (ball g))
       (bumper_pos bm) (bumper_radius bm))
   \<Longrightarrow> fold bumper_hit bs g = g"
  by (induction bs) (simp_all add: bumper_hit_miss)

lemma check_rollovers_miss:
  "\<forall>r \<in> set rs. \<not> lit r \<and> 0 < rollover_radius r + radius b * (6 / 10) \<and>
      (rollover_radius r + radius b * (6 / 10))\<^sup>2 \<le> length_squared (vsub (pos b) (rollover_pos r))
   \<Longrightarrow> check_rollovers b rs sc = (rs, sc)"
  by (induction rs arbitrary: sc) (simp_all add: check_def vlength_less)

lemma handle_flipper_collision_far:
  assumes "0 \<le> flipper_length f"
    and "flipper_length f + radius (ball g) \<le> vlength (vsub (pos (ball g)) (pivot f))"
  shows "handle_flipper_collision f g = g"
proof -
  obtain p q where e: "endpoints f = (p, q)" by (cases "endpoints f")
  have p: "p = pivot f" using e by (simp add: endpoints_def Let_def)
  have "vlength (vsub q p) = flipper_length f"
    using endpoints_span [OF assms(1)] e by simp
  then have "\<not> fst (circle_line_collision (pos (ball g)) (radius (ball g)) p q)"
    using assms(2) p by (intro circle_line_far) simp
  then show ?thesis
    by (auto simp add: handle_flipper_collision_def e split: prod.splits)
qed

section \<open>Ball dynamics\<close>

lemma clamp_speed_le: "vlength (clamp_speed v) \<le> MAX_BALL_SPEED"
proof (cases "vlength v > MAX_BALL_SPEED")
  case True
  then have "vlength v > 0" by (simp add: MAX_BALL_SPEED_def)
  with True show ?thesis
    by (simp add: clamp_speed_def Let_def vlength_smul MAX_BALL_SPEED_def)
next
  case False
  then show ?thesis by (simp add: clamp_speed_def Let_def)
qed

text \<open>
  Claim C1. For a ball that is in play and a timestep \<open>dt > 0\<close>, the speed right after
  \<open>apply_physics\<close> is at most \<open>MAX_BALL_SPEED\<close>. When the speed after gravity and
  drag exceeds the maximum, the new velocity is that velocity times the positive factor
  \<open>MAX_BALL_SPEED / speed\<close> (same direction) and its speed is exactly the maximum;
  otherwise the velocity after gravity and drag is kept.
\<close>

theorem apply_physics_speed_clamp:
  assumes "in_play b" and "dt > 0"
  shows "vlength (vel (apply_physics dt b)) \<le> MAX_BALL_SPEED \<and>
         (vlength (gravity_drag dt (vel b)) > MAX_BALL_SPEED \<longrightarrow>
            vel (apply_physics dt b) =
              smul (MAX_BALL_SPEED / vlength (gravity_drag dt (vel b))) (gravity_drag dt (vel b)) \<and>
            0 < MAX_BALL_SPEED / vlength (gravity_drag dt (vel b)) \<and>
            vlength (vel (apply_physics dt b)) = MAX_BALL_SPEED) \<and>
         (vlength (gravity_drag dt (vel b)) \<le> MAX_BALL_SPEED \<longrightarrow>
            vel (apply_physics dt b) = gravity_drag dt (vel b))"
proof -
  let ?w = "gravity_drag dt (vel b)"
  have v: "vel (apply_physics dt b) = clamp_speed ?w"
    using assms by (simp add: apply_physics_def Let_def)
  have a: "vlength (vel (apply_physics dt b)) \<le> MAX_BALL_SPEED"
    by (simp add: v clamp_speed_le)
  have b: "vel (apply_physics dt b) = smul (MAX_BALL_SPEED / vlength ?w) ?w \<and>
           0 < MAX_BALL_SPEED / vlength ?w \<and>
           vlength (vel (apply_physics dt b)) = MAX_BALL_SPEED"
    if h: "vlength ?w > MAX_BALL_SPEED"
  proof -
    from h have p: "vlength ?w > 0" by (simp add: MAX_BALL_SPEED_def)
    from h p show ?thesis
      by (simp add: v clamp_speed_def Let_def vlength_smul MAX_BALL_SPEED_def)
  qed
  have c: "vel (apply_physics dt b) = ?w" if "vlength ?w \<le> MAX_BALL_SPEED"
    using that by (simp add: v clamp_speed_def Let_def)
  from a b c show ?thesis by blast
qed

theorem apply_physics_speed_clamp_witness:
  "in_play ((Ball_init launch_lane)\<lparr>vel := (0, 3000), in_play := True\<rparr>) \<and> (0::real) < 1 / 60 \<and>
   vlength (gravity_drag (1 / 60) (vel ((Ball_init launch_lane)\<lparr>vel := (0, 3000), in_play := True\<rparr>)))
     > MAX_BALL_SPEED \<and>
   vlength (vel (apply_physics (1 / 60) ((Ball_init launch_lane)\<lparr>vel := (0, 3000), in_play := True\<rparr>)))
     = MAX_BALL_SPEED"
proof -
  let ?b = "(Ball_init launch_lane)\<lparr>vel := (0, 3000), in_play := True\<rparr>"
  have h1: "in_play ?b" by simp
  have h2: "(0::real) < 1 / 60" by simp
  have h3: "vlength (gravity_drag (1 / 60) (vel ?b)) > MAX_BALL_SPEED"
    by (simp add: gravity_drag_def vlength_vertical smul_def MAX_BALL_SPEED_def
        AIR_FRICTION_def GRAVITY_def)
  show ?thesis
    using apply_physics_speed_clamp [OF h1 h2] h1 h2 h3 by blast
qed

section \<open>Reflection\<close>

text \<open>
  Claim C2. For a unit normal \<open>n\<close>: if the component of \<open>v\<close> along \<open>n\<close> is negative,
  \<open>reflect\<close> returns \<open>v - (1 + e) * (v . n) * n\<close>, and the outgoing normal component is
  \<open>e\<close> times the incoming normal speed \<open>- (v . n)\<close>; if the component is not negative,
  \<open>reflect\<close> returns \<open>v\<close> unchanged.
\<close>

theorem reflect_law:
  assumes "dot n n = 1"
  shows "(dot v n < 0 \<longrightarrow>
            reflect v n e = vsub v (smul ((1 + e) * dot v n) n) \<and>
            dot (reflect v n e) n = e * (- dot v n)) \<and>
         (dot v n \<ge> 0 \<longrightarrow> reflect v n e = v)"
proof -
  have "dot (vsub v (smul ((1 + e) * dot v n) n)) n = dot v n - (1 + e) * dot v n * dot n n"
    by (simp add: dot_def vsub_def smul_def algebra_simps)
  also have "\<dots> = e * (- dot v n)"
    by (simp add: assms algebra_simps)
  finally show ?thesis
    by (simp add: reflect_def Let_def)
qed

theorem reflect_law_witness:
  "dot (0, 1) (0, 1) = 1 \<and> dot (3, - 4) (0, 1) < 0 \<and>
   reflect (3, - 4) (0, 1) (1 / 2) = (3, 2) \<and>
   dot (reflect (3, - 4) (0, 1) (1 / 2)) (0, 1) = 1 / 2 * 4"
proof -
  have h: "dot (0, 1) (0, 1) = 1" by (simp add: dot_def)
  have n: "dot (3, - 4) (0, 1) < 0" by (simp add: dot_def)
  have r: "vsub (3, - 4) (smul ((1 + 1 / 2) * dot (3, - 4) (0, 1)) (0, 1)) = (3, 2)"
    by (simp add: dot_def vsub_def smul_def)
  show ?thesis
    using reflect_law [OF h, of "(3, - 4)" "1 / 2"] h n r by (simp add: dot_def)
qed

section \<open>Flipper kinematics\<close>




section \<open>Launch\<close>

text \<open>
  Claim C10. When the ball is already in play, \<open>launch_ball\<close> returns the game state it
  was given: ball, plunger charge, ball-save flag and timer and every other field are the same.
\<close>

theorem launch_ball_in_play_noop:
  assumes "in_play (ball g)"
  shows "launch_ball ang g = g"
  using assms by (simp add: launch_ball_def)

theorem launch_ball_in_play_noop_witness:
  "in_play (ball (launch_ball 2 (Game_init None))) \<and>
   launch_ball 2 (launch_ball 2 (Game_init None)) = launch_ball 2 (Game_init None)"
proof -
  have h: "in_play (ball (launch_ball 2 (Game_init None)))"
    by (simp add: launch_ball_def Game_init_def Ball_init_def Let_def)
  show ?thesis
    using launch_ball_in_play_noop [OF h, of 2] h by simp
qed

section \<open>Restart\<close>

text \<open>
  Claim C7. The restart key does nothing unless the game is over; when it is over the key
  performs \<open>restart\<close>, which sets the score to zero, balls-remaining to the starting count,
  every rollover to unlit, the bumper multiplier to 1 and its timer to zero, the tilt meter
  to zero and tilt to inactive, puts a fresh idle ball at the launch lane, and keeps the
  high score and the stored high score.
\<close>

theorem restart_only_from_game_over:
  "(\<not> game_over g \<longrightarrow> handle_event d (KEYDOWN K_r) g = g) \<and>
   (game_over g \<longrightarrow> handle_event d (KEYDOWN K_r) g = restart g) \<and>
   score (restart g) = 0 \<and>
   balls_left (restart g) = START_BALLS \<and>
   rollovers (restart g) = map (\<lambda>r. r\<lparr>lit := False\<rparr>) (rollovers g) \<and>
   list_all (\<lambda>r. \<not> lit r) (rollovers (restart g)) \<and>
   bumper_mult (restart g) = 1 \<and>
   bumper_mult_timer (restart g) = 0 \<and>
   tilt_meter (restart g) = 0 \<and>
   \<not> tilt_active (restart g) \<and>
   ball (restart g) = Ball_init launch_lane \<and>
   pos (ball (restart g)) = launch_lane \<and>
   vel (ball (restart g)) = (0, 0) \<and>
   \<not> in_play (ball (restart g)) \<and>
   \<not> game_over (restart g) \<and>
   high_score (restart g) = high_score g \<and>
   highscore_file (restart g) = highscore_file g"
  by (simp add: key_down_def restart_def reset_ball_def Ball_init_def Let_def list_all_iff)

theorem restart_only_from_game_over_witness:
  "game_over ((Game_init (Some 700))\<lparr>game_over := True, score := 1234, balls_left := 0\<rparr>) \<and>
   score (handle_event 1 (KEYDOWN K_r)
     ((Game_init (Some 700))\<lparr>game_over := True, score := 1234, balls_left := 0\<rparr>)) = 0 \<and>
   balls_left (handle_event 1 (KEYDOWN K_r)
     ((Game_init (Some 700))\<lparr>game_over := True, score := 1234, balls_left := 0\<rparr>)) = 3 \<and>
   high_score (handle_event 1 (KEYDOWN K_r)
     ((Game_init (Some 700))\<lparr>game_over := True, score := 1234, balls_left := 0\<rparr>)) = 700 \<and>
   \<not> game_over ((Game_init (Some 700))\<lparr>score := 1234\<rparr>) \<and>
   handle_event 1 (KEYDOWN K_r) ((Game_init (Some 700))\<lparr>score := 1234\<rparr>)
     = (Game_init (Some 700))\<lparr>score := 1234\<rparr>"
proof -
  let ?g = "(Game_init (Some 700))\<lparr>game_over := True, score := 1234, balls_left := 0\<rparr>"
  let ?h = "(Game_init (Some 700))\<lparr>score := 1234\<rparr>"
  have h1: "game_over ?g" by simp
  have h2: "\<not> game_over ?h" by (simp add: Game_init_def Let_def)
  have h3: "high_score ?g = 700" by (simp add: Game_init_def load_high_score_def Let_def)
  show ?thesis
    using restart_only_from_game_over [of ?g 1] restart_only_from_game_over [of ?h 1] h1 h2 h3
    by (simp add: START_BALLS_def)
qed

section \<open>Drain\<close>

lemma session_wall_hit: "session (wall_hit w g) = session g"
  by (simp add: wall_hit_def session_def Let_def split: prod.splits)

lemma session_fold_wall_hit: "session (fold wall_hit ws g) = session g"
  by (induction ws arbitrary: g) (simp_all add: session_wall_hit)

lemma session_handle_wall_collisions: "session (handle_wall_collisions g) = session g"
proof -
  have "session (handle_wall_collisions g) = session (fold wall_hit (walls g) g)"
    by (simp add: handle_wall_collisions_def Let_def session_def)
  then show ?thesis by (simp add: session_fold_wall_hit)
qed

lemma session_bumper_hit: "session (bumper_hit bm g) = session g"
  by (simp add: bumper_hit_def session_def Let_def split: prod.splits)

lemma session_handle_bumper_collisions: "session (handle_bumper_collisions g) = session g"
proof -
  have "session (fold bumper_hit bs g) = session g" for bs
    by (induction bs arbitrary: g) (simp_all add: session_bumper_hit)
  then show ?thesis by (simp add: handle_bumper_collisions_def)
qed

lemma session_handle_rollovers: "session (handle_rollovers g) = session g"
  by (simp add: handle_rollovers_def session_def Let_def split: prod.splits)

lemma session_handle_flipper_collision: "session (handle_flipper_collision f g) = session g"
  by (simp add: handle_flipper_collision_def session_def Let_def split: prod.splits)

lemma session_timers:
  "session (bonus_timers dt g) = session g"
  "session (tilt_timers dt g) = session g"
  "session (ball_save_timers dt g) = session g"
  by (simp_all add: bonus_timers_def tilt_timers_def ball_save_timers_def session_def Let_def)

lemma session_update_steps: "session (update_steps dt g) = session g"
proof -
  have "session (g\<lparr>left_flipper := lf, right_flipper := rf, ball := b\<rparr>) = session g" for lf rf b
    by (simp add: session_def)
  then show ?thesis
    by (simp add: update_steps_def Let_def session_timers session_handle_flipper_collision
        session_handle_rollovers session_handle_bumper_collisions session_handle_wall_collisions)
qed

text \<open>
  Claim C3. Take an update of a game that is neither paused nor over, in which the ball is
  in play and below the drain line when the drain check runs. If ball save is active at the
  check, balls-remaining is as before the update, the ball is a fresh idle ball at the launch
  lane, and ball save is off with its timer at zero. If ball save is not active,
  balls-remaining is one less than before the update; when that is zero or less the game is
  over, the high score is the maximum of the old high score and the score, the stored high
  score is that maximum when the write succeeds and is as before when the write fails, and
  every later update leaves the state as it is (no second transition); otherwise the ball is
  a fresh idle ball at the launch lane and the game goes on.
\<close>

theorem drain_rules:
  assumes "\<not> paused g" and "\<not> game_over g"
    and "in_play (ball (update_steps dt g))"
    and "snd (pos (ball (update_steps dt g))) - radius (ball (update_steps dt g)) > HEIGHT + 40"
  shows "update w dt g = drain_check w (update_steps dt g) \<and>
         (ball_save_active (update_steps dt g) \<longrightarrow>
            balls_left (update w dt g) = balls_left g \<and>
            ball (update w dt g) = Ball_init launch_lane \<and>
            \<not> ball_save_active (update w dt g) \<and>
            ball_save_timer (update w dt g) = 0 \<and>
            \<not> game_over (update w dt g) \<and>
            high_score (update w dt g) = high_score g \<and>
            highscore_file (update w dt g) = highscore_file g) \<and>
         (\<not> ball_save_active (update_steps dt g) \<longrightarrow>
            balls_left (update w dt g) = balls_left g - 1 \<and>
            \<not> in_play (ball (update w dt g))) \<and>
         (\<not> ball_save_active (update_steps dt g) \<and> balls_left g - 1 \<le> 0 \<longrightarrow>
            game_over (update w dt g) \<and>
            high_score (update w dt g) = max (high_score g) (score (update_steps dt g)) \<and>
            highscore_file (update w dt g)
              = (if w then Some (max (high_score g) (score (update_steps dt g)))
                 else highscore_file g) \<and>
            (\<forall>w' dt'. update w' dt' (update w dt g) = update w dt g)) \<and>
         (\<not> ball_save_active (update_steps dt g) \<and> balls_left g - 1 > 0 \<longrightarrow>
            ball (update w dt g) = Ball_init launch_lane \<and>
            \<not> game_over (update w dt g) \<and>
            high_score (update w dt g) = high_score g \<and>
            highscore_file (update w dt g) = highscore_file g)"
proof -
  let ?s = "update_steps dt g"
  have u: "update w dt g = drain_check w ?s"
    using assms(1,2) by (simp add: update_def)
  have "session ?s = session g" by (rule session_update_steps)
  then have f: "balls_left ?s = balls_left g" "high_score ?s = high_score g"
    "game_over ?s = game_over g" "highscore_file ?s = highscore_file g"
    by (simp_all add: session_def)
  have a: "ball_save_active ?s \<longrightarrow>
            balls_left (drain_check w ?s) = balls_left g \<and>
            ball (drain_check w ?s) = Ball_init launch_lane \<and>
            \<not> ball_save_active (drain_check w ?s) \<and>
            ball_save_timer (drain_check w ?s) = 0 \<and>
            \<not> game_over (drain_check w ?s) \<and>
            high_score (drain_check w ?s) = high_score g \<and>
            highscore_file (drain_check w ?s) = highscore_file g"
    using assms f by (simp add: drain_check_def reset_ball_def)
  have b: "\<not> ball_save_active ?s \<longrightarrow>
            balls_left (drain_check w ?s) = balls_left g - 1 \<and>
            \<not> in_play (ball (drain_check w ?s))"
    using assms f
    by (simp add: drain_check_def reset_ball_def save_high_score_def Let_def Ball_init_def)
  have c: "\<not> ball_save_active ?s \<and> balls_left g - 1 \<le> 0 \<longrightarrow>
            game_over (drain_check w ?s) \<and>
            high_score (drain_check w ?s) = max (high_score g) (score ?s) \<and>
            highscore_file (drain_check w ?s)
              = (if w then Some (max (high_score g) (score ?s)) else highscore_file g)"
    using assms f by (simp add: drain_check_def save_high_score_def Let_def)
  have c': "game_over (drain_check w ?s) \<longrightarrow>
      (\<forall>w' dt'. update w' dt' (drain_check w ?s) = drain_check w ?s)"
    by (simp add: update_def)
  have d: "\<not> ball_save_active ?s \<and> balls_left g - 1 > 0 \<longrightarrow>
            ball (drain_check w ?s) = Ball_init launch_lane \<and>
            \<not> game_over (drain_check w ?s) \<and>
            high_score (drain_check w ?s) = high_score g \<and>
            highscore_file (drain_check w ?s) = highscore_file g"
    using assms f by (simp add: drain_check_def reset_ball_def Let_def)
  from a b c c' d show ?thesis unfolding u by blast
qed

lemma drain_ball_physics: "apply_physics (1 / 60) drain_ball = drained_ball"
  by (simp add: drain_ball_def drained_ball_def apply_physics_def gravity_drag_def
      clamp_speed_def Let_def smul_def vadd_def vlength_vertical MAX_BALL_SPEED_def GRAVITY_def
      AIR_FRICTION_def trail_append_def TRAIL_POINTS_def Ball_init_def)

lemma drain_walls:
  "\<forall>w \<in> set table_walls. \<not> fst (circle_line_collision (250, 2557981 / 3600) 12 (wall_a w) (wall_b w))"
  by (simp add: table_walls_def WIDTH_def HEIGHT_def Let_def hit_line_iff vlength_eps_less EPS_def
      vec_simps)

lemma drain_bumpers:
  "\<forall>bm \<in> set table_bumpers. \<not> fst (circle_circle_collision (250, 2557981 / 3600) 12
       (bumper_pos bm) (bumper_radius bm))"
  by (simp add: table_bumpers_def WIDTH_def hit_circle_iff vlength_eps_less EPS_def vec_simps)

lemma drain_rollovers:
  "\<forall>r \<in> set table_rollovers. \<not> lit r \<and> 0 < rollover_radius r + 12 * (6 / 10) \<and>
      (rollover_radius r + 12 * (6 / 10))\<^sup>2
        \<le> length_squared (vsub (250, 2557981 / 3600) (rollover_pos r))"
  by (simp add: table_rollovers_def Rollover_init_def WIDTH_def vec_simps)

lemma drain_steps:
  assumes "ball g = drain_ball"
    and "walls g = table_walls" and "bumpers g = table_bumpers"
    and "rollovers g = table_rollovers"
    and "left_flipper g = Flipper_init (WIDTH * (35 / 100), HEIGHT - 120) FLIPPER_LENGTH True"
    and "right_flipper g = Flipper_init (WIDTH * (65 / 100), HEIGHT - 120) FLIPPER_LENGTH False"
  shows "update_steps (1 / 60) g =
     ball_save_timers (1 / 60) (tilt_timers (1 / 60) (bonus_timers (1 / 60)
       (g\<lparr>ball := drained_ball\<rparr>)))"
proof -
  let ?g = "g\<lparr>ball := drained_ball\<rparr>"
  have pr: "pos (ball ?g) = (250, 2557981 / 3600)" "radius (ball ?g) = 12"
    by (simp_all add: drained_ball_def drain_ball_def Ball_init_def BALL_RADIUS_def)
  have tb: "walls ?g = table_walls" "bumpers ?g = table_bumpers" "rollovers ?g = table_rollovers"
    using assms by simp_all
  have fl: "Flipper_update (1 / 60) (left_flipper g) = left_flipper g"
    "Flipper_update (1 / 60) (right_flipper g) = right_flipper g"
    using assms by (simp_all add: Flipper_init_def Flipper_update_def flipper_target_def)
  have w: "fold wall_hit (walls ?g) ?g = ?g"
    by (rule fold_wall_hit_miss, simp only: pr tb, rule drain_walls)
  have bc: "boundary_clamp drained_ball = drained_ball"
    by (simp add: boundary_clamp_def Let_def drained_ball_def drain_ball_def Ball_init_def
        BALL_RADIUS_def WIDTH_def)
  have hw: "handle_wall_collisions ?g = ?g"
    unfolding handle_wall_collisions_def Let_def w using bc by simp
  have hb: "handle_bumper_collisions ?g = ?g"
    unfolding handle_bumper_collisions_def
    by (rule fold_bumper_hit_miss, simp only: pr tb, rule drain_bumpers)
  have cr: "check_rollovers (ball ?g) (rollovers ?g) (score ?g) = (rollovers ?g, score ?g)"
    by (rule check_rollovers_miss, simp only: pr tb, rule drain_rollovers)
  have nl: "\<not> list_all lit (rollovers ?g)"
    by (simp add: tb table_rollovers_def Rollover_init_def)
  have hr: "handle_rollovers ?g = ?g"
    unfolding handle_rollovers_def cr using nl by (simp add: Let_def)
  have lf: "handle_flipper_collision (left_flipper ?g) ?g = ?g"
    by (rule handle_flipper_collision_far)
      (simp_all add: assms drained_ball_def drain_ball_def Flipper_init_def FLIPPER_LENGTH_def
        Ball_init_def BALL_RADIUS_def WIDTH_def HEIGHT_def vlength_def vec_simps real_le_rsqrt)
  have rf: "handle_flipper_collision (right_flipper ?g) ?g = ?g"
    by (rule handle_flipper_collision_far)
      (simp_all add: assms drained_ball_def drain_ball_def Flipper_init_def FLIPPER_LENGTH_def
        Ball_init_def BALL_RADIUS_def WIDTH_def HEIGHT_def vlength_def vec_simps real_le_rsqrt)
  have st: "g\<lparr>left_flipper := left_flipper g\<rparr> = g" "g\<lparr>right_flipper := right_flipper g\<rparr> = g"
    by simp_all
  show ?thesis
    unfolding update_steps_def Let_def fl st assms(1) drain_ball_physics hw hb hr lf rf ..
qed

lemma drain_game_steps:
  "update_steps (1 / 60) drain_game = drain_game\<lparr>ball := drained_ball\<rparr>"
proof -
  have "update_steps (1 / 60) drain_game =
     ball_save_timers (1 / 60) (tilt_timers (1 / 60) (bonus_timers (1 / 60)
       (drain_game\<lparr>ball := drained_ball\<rparr>)))"
    by (rule drain_steps) (simp_all add: drain_game_def drain_ball_def Game_init_def Let_def)
  also have "\<dots> = drain_game\<lparr>ball := drained_ball\<rparr>"
    by (simp add: bonus_timers_def tilt_timers_def ball_save_timers_def drain_game_def
        Game_init_def Let_def TILT_DECAY_def)
  finally show ?thesis .
qed

lemma drain_game_saved_steps:
  "update_steps (1 / 60) drain_game_saved =
     drain_game_saved\<lparr>ball := drained_ball, ball_save_timer := 299 / 60\<rparr>"
proof -
  have "update_steps (1 / 60) drain_game_saved =
     ball_save_timers (1 / 60) (tilt_timers (1 / 60) (bonus_timers (1 / 60)
       (drain_game_saved\<lparr>ball := drained_ball\<rparr>)))"
    by (rule drain_steps)
      (simp_all add: drain_game_saved_def drain_game_def drain_ball_def Game_init_def Let_def)
  also have "\<dots> = drain_game_saved\<lparr>ball := drained_ball, ball_save_timer := 299 / 60\<rparr>"
    by (simp add: bonus_timers_def tilt_timers_def ball_save_timers_def drain_game_saved_def
        drain_game_def Game_init_def Let_def TILT_DECAY_def)
  finally show ?thesis .
qed

theorem drain_rules_witness:
  "\<not> paused drain_game \<and> \<not> game_over drain_game \<and>
   in_play (ball (update_steps (1 / 60) drain_game)) \<and>
   snd (pos (ball (update_steps (1 / 60) drain_game))) - radius (ball (update_steps (1 / 60) drain_game))
     > HEIGHT + 40 \<and>
   \<not> ball_save_active (update_steps (1 / 60) drain_game) \<and>
   balls_left drain_game - 1 \<le> 0 \<and>
   balls_left (update True (1 / 60) drain_game) = 0 \<and>
   game_over (update True (1 / 60) drain_game) \<and>
   high_score (update True (1 / 60) drain_game) = 900 \<and>
   highscore_file (update True (1 / 60) drain_game) = Some 900 \<and>
   game_over (update False (1 / 60) drain_game) \<and>
   high_score (update False (1 / 60) drain_game) = 900 \<and>
   highscore_file (update False (1 / 60) drain_game) = Some 500 \<and>
   \<not> paused drain_game_saved \<and> \<not> game_over drain_game_saved \<and>
   in_play (ball (update_steps (1 / 60) drain_game_saved)) \<and>
   snd (pos (ball (update_steps (1 / 60) drain_game_saved)))
     - radius (ball (update_steps (1 / 60) drain_game_saved)) > HEIGHT + 40 \<and>
   ball_save_active (update_steps (1 / 60) drain_game_saved) \<and>
   balls_left (update True (1 / 60) drain_game_saved) = 1 \<and>
   ball (update True (1 / 60) drain_game_saved) = Ball_init launch_lane \<and>
   \<not> ball_save_active (update True (1 / 60) drain_game_saved) \<and>
   \<not> game_over (update True (1 / 60) drain_game_saved)"
proof -
  have a: "\<not> paused drain_game" "\<not> game_over drain_game"
    "balls_left drain_game = 1" "high_score drain_game = 500" "score drain_game = 900"
    "highscore_file drain_game = Some 500"
    by (simp_all add: drain_game_def Game_init_def Let_def load_high_score_def)
  have b: "in_play (ball (update_steps (1 / 60) drain_game))"
    "snd (pos (ball (update_steps (1 / 60) drain_game)))
       - radius (ball (update_steps (1 / 60) drain_game)) > HEIGHT + 40"
    "\<not> ball_save_active (update_steps (1 / 60) drain_game)"
    "score (update_steps (1 / 60) drain_game) = 900"
    unfolding drain_game_steps
    by (simp_all add: drained_ball_def drain_ball_def Ball_init_def
        BALL_RADIUS_def HEIGHT_def drain_game_def Game_init_def Let_def)
  have c: "\<not> paused drain_game_saved" "\<not> game_over drain_game_saved"
    "balls_left drain_game_saved = 1"
    by (simp_all add: drain_game_saved_def a)
  have d: "in_play (ball (update_steps (1 / 60) drain_game_saved))"
    "snd (pos (ball (update_steps (1 / 60) drain_game_saved)))
       - radius (ball (update_steps (1 / 60) drain_game_saved)) > HEIGHT + 40"
    "ball_save_active (update_steps (1 / 60) drain_game_saved)"
    unfolding drain_game_saved_steps
    by (simp_all add: drained_ball_def drain_ball_def Ball_init_def
        BALL_RADIUS_def HEIGHT_def drain_game_saved_def)
  show ?thesis
    using drain_rules [OF a(1) a(2) b(1) b(2), where w = True, THEN conjunct2]
      drain_rules [OF a(1) a(2) b(1) b(2), where w = False, THEN conjunct2]
      drain_rules [OF c(1) c(2) d(1) d(2), where w = True, THEN conjunct2] a b c d
    by simp
qed

section \<open>Nudge and tilt\<close>

lemma launched_game_eq:
  "launched_game =
     (Game_init None)\<lparr>ball := (Ball_init launch_lane)\<lparr>vel := (cos 2 * 490, - sin 2 * 490), in_play := True\<rparr>,
        ball_save_active := True, ball_save_timer := BALL_SAVE_TIME\<rparr>"
  by (simp add: launched_game_def handle_events_def plunger_def reset_ball_def Game_init_def
      Let_def Ball_init_def launch_ball_def clamp_def PLUNGER_CHARGE_RATE_def PLUNGER_MAX_def)

lemma nudged_twice_eq:
  "nudged_twice = launched_game\<lparr>tilt_meter := 2\<rparr>"
  by (simp add: nudged_twice_def launched_game_eq handle_events_def plunger_def key_down_def
      do_nudge_def Game_init_def Let_def Ball_init_def TILT_MAX_def NUDGE_IMPULSE_def)

lemma tilted_game_eq:
  "tilted_game =
     launched_game\<lparr>ball := (ball launched_game)\<lparr>vel := (cos 2 * 490 + 260, - sin 2 * 490)\<rparr>,
        tilt_meter := 3, tilt_active := True, tilt_timer := TILT_LOCKOUT\<rparr>"
  by (simp add: tilted_game_def nudged_twice_eq launched_game_eq handle_events_def plunger_def
      key_down_def do_nudge_def Game_init_def Let_def Ball_init_def TILT_MAX_def NUDGE_IMPULSE_def
      Flipper_init_def)

text \<open>
  Claim C4, as the code has it. The nudge key performs a nudge exactly when the ball is in
  play, the game is not paused and the game is not over; tilt is not asked. A nudge adds
  \<open>NUDGE_IMPULSE\<close> to the horizontal velocity with the drawn sign, leaves the position,
  and adds 1 to the tilt meter. When the meter then is at least \<open>TILT_MAX\<close> and tilt was
  not active, tilt becomes active, the timer is \<open>TILT_LOCKOUT\<close> and both flipper intents
  are false; otherwise tilt flag, timer and flippers are as before.
\<close>

theorem nudge_rules:
  assumes "d = 1 \<or> d = - 1"
  shows "handle_event d (KEYDOWN K_n) g =
           (if in_play (ball g) \<and> \<not> paused g \<and> \<not> game_over g then do_nudge d g else g) \<and>
         vel (ball (do_nudge d g)) = (fst (vel (ball g)) + real_of_int d * NUDGE_IMPULSE, snd (vel (ball g))) \<and>
         \<bar>fst (vel (ball (do_nudge d g))) - fst (vel (ball g))\<bar> = NUDGE_IMPULSE \<and>
         pos (ball (do_nudge d g)) = pos (ball g) \<and>
         tilt_meter (do_nudge d g) = tilt_meter g + 1 \<and>
         (tilt_meter g + 1 \<ge> TILT_MAX \<and> \<not> tilt_active g \<longrightarrow>
            tilt_active (do_nudge d g) \<and>
            tilt_timer (do_nudge d g) = TILT_LOCKOUT \<and>
            \<not> key_pressed (left_flipper (do_nudge d g)) \<and>
            \<not> key_pressed (right_flipper (do_nudge d g))) \<and>
         (\<not> (tilt_meter g + 1 \<ge> TILT_MAX \<and> \<not> tilt_active g) \<longrightarrow>
            tilt_active (do_nudge d g) = tilt_active g \<and>
            tilt_timer (do_nudge d g) = tilt_timer g \<and>
            left_flipper (do_nudge d g) = left_flipper g \<and>
            right_flipper (do_nudge d g) = right_flipper g)"
  using assms by (auto simp add: key_down_def do_nudge_def Let_def NUDGE_IMPULSE_def)

theorem nudge_rules_witness:
  "((1::int) = 1 \<or> (1::int) = - 1) \<and>
   in_play (ball nudged_twice) \<and> \<not> paused nudged_twice \<and> \<not> game_over nudged_twice \<and>
   tilt_meter nudged_twice + 1 \<ge> TILT_MAX \<and> \<not> tilt_active nudged_twice \<and>
   handle_event 1 (KEYDOWN K_n) nudged_twice = do_nudge 1 nudged_twice \<and>
   tilt_meter (do_nudge 1 nudged_twice) = 3 \<and>
   tilt_active (do_nudge 1 nudged_twice) \<and>
   tilt_timer (do_nudge 1 nudged_twice) = TILT_LOCKOUT \<and>
   \<not> key_pressed (left_flipper (do_nudge 1 nudged_twice)) \<and>
   \<not> key_pressed (right_flipper (do_nudge 1 nudged_twice))"
proof -
  have h: "(1::int) = 1 \<or> (1::int) = - 1" by simp
  have a: "in_play (ball nudged_twice)" "\<not> paused nudged_twice" "\<not> game_over nudged_twice"
    "tilt_meter nudged_twice = 2" "\<not> tilt_active nudged_twice"
    unfolding nudged_twice_eq launched_game_eq by (simp_all add: Game_init_def Let_def)
  show ?thesis
    using nudge_rules [OF h, of nudged_twice] a by (simp add: TILT_MAX_def)
qed

text \<open>
  Claim C4 as stated fails: in the session nudged three times the table is tilted, and a
  fourth press of the nudge key still moves the meter from 3 to 4 and adds the impulse.
\<close>

theorem nudge_while_tilted:
  "in_play (ball tilted_game) \<and> \<not> paused tilted_game \<and> tilt_active tilted_game \<and>
   tilt_meter tilted_game = 3 \<and>
   tilt_meter (handle_event 1 (KEYDOWN K_n) tilted_game) = 4 \<and>
   fst (vel (ball (handle_event 1 (KEYDOWN K_n) tilted_game)))
     = fst (vel (ball tilted_game)) + NUDGE_IMPULSE"
  unfolding tilted_game_eq launched_game_eq
  by (simp add: key_down_def do_nudge_def Game_init_def Let_def Ball_init_def TILT_MAX_def
      NUDGE_IMPULSE_def)

section \<open>Rollovers\<close>

lemma check_lit: "lit r \<Longrightarrow> check r p br = (False, r)"
  by (simp add: check_def)

lemma check_rollovers_Cons:
  "check_rollovers b (r # rs) sc =
     (snd (check r (pos b) (radius b))
        # fst (check_rollovers b rs
            (if fst (check r (pos b) (radius b)) \<and> in_play b then sc + rollover_score r else sc)),
      snd (check_rollovers b rs
            (if fst (check r (pos b) (radius b)) \<and> in_play b then sc + rollover_score r else sc)))"
proof -
  have "rollover_score (snd (check r (pos b) (radius b))) = rollover_score r"
    by (simp add: check_def)
  then show ?thesis
    by (simp add: case_prod_beta Let_def)
qed

lemma check_rollovers_fst:
  "fst (check_rollovers b rs sc) = map (\<lambda>r. snd (check r (pos b) (radius b))) rs"
  by (induction rs arbitrary: sc) (simp_all add: check_rollovers_Cons del: check_rollovers.simps(2))

lemma check_rollovers_snd:
  "snd (check_rollovers b rs sc) =
     sc + (if in_play b
           then sum_list (map rollover_score (filter (\<lambda>r. fst (check r (pos b) (radius b))) rs))
           else 0)"
  by (induction rs arbitrary: sc) (simp_all add: check_rollovers_Cons del: check_rollovers.simps(2))

lemma list_all_unlit: "list_all (\<lambda>r. \<not> lit r) (map (\<lambda>r. r\<lparr>lit := False\<rparr>) rs)"
  by (induction rs) simp_all

text \<open>
  Claim C6. Checking a lit rollover returns "not newly lit" and the rollover unchanged, and
  in the loop of \<open>handle_rollovers\<close> it leaves the score as it is. The loop adds to the
  score the values of the newly lit rollovers of a ball in play. If after the loop the ball
  is in play and every rollover is lit, 1000 is added once, the bumper multiplier is 2 with
  its timer at 15, and every rollover is unlit; in every other case no bonus is added and the
  multiplier, its timer and the lights stay as the loop left them. The source asks for the
  ball in play before the bonus, as it does before every score effect of a collision.
\<close>

theorem rollover_rules:
  "(lit r \<longrightarrow> check r p br = (False, r)) \<and>
   (lit r \<longrightarrow> check_rollovers b (r # rs) sc =
      (case check_rollovers b rs sc of (rs', sc') \<Rightarrow> (r # rs', sc'))) \<and>
   fst (check_rollovers (ball g) (rollovers g) (score g))
     = map (\<lambda>r. snd (check r (pos (ball g)) (radius (ball g)))) (rollovers g) \<and>
   snd (check_rollovers (ball g) (rollovers g) (score g))
     = score g + (if in_play (ball g)
                  then sum_list (map rollover_score
                         (filter (\<lambda>r. fst (check r (pos (ball g)) (radius (ball g)))) (rollovers g)))
                  else 0) \<and>
   (in_play (ball g) \<and> list_all lit (fst (check_rollovers (ball g) (rollovers g) (score g))) \<longrightarrow>
      score (handle_rollovers g) = snd (check_rollovers (ball g) (rollovers g) (score g)) + 1000 \<and>
      bumper_mult (handle_rollovers g) = 2 \<and>
      bumper_mult_timer (handle_rollovers g) = 15 \<and>
      list_all (\<lambda>r. \<not> lit r) (rollovers (handle_rollovers g)) \<and>
      length (rollovers (handle_rollovers g)) = length (rollovers g)) \<and>
   (\<not> (in_play (ball g) \<and> list_all lit (fst (check_rollovers (ball g) (rollovers g) (score g)))) \<longrightarrow>
      score (handle_rollovers g) = snd (check_rollovers (ball g) (rollovers g) (score g)) \<and>
      bumper_mult (handle_rollovers g) = bumper_mult g \<and>
      bumper_mult_timer (handle_rollovers g) = bumper_mult_timer g \<and>
      rollovers (handle_rollovers g) = fst (check_rollovers (ball g) (rollovers g) (score g)))"
proof -
  have a: "lit r \<longrightarrow> check r p br = (False, r)"
    by (simp add: check_lit)
  have b: "lit r \<longrightarrow> check_rollovers b (r # rs) sc =
      (case check_rollovers b rs sc of (rs', sc') \<Rightarrow> (r # rs', sc'))"
    by (simp add: check_lit)
  obtain rs' sc' where c: "check_rollovers (ball g) (rollovers g) (score g) = (rs', sc')"
    by (cases "check_rollovers (ball g) (rollovers g) (score g)")
  have l: "length rs' = length (rollovers g)"
    using check_rollovers_fst [of "ball g" "rollovers g" "score g"] c by simp
  have d: "in_play (ball g) \<and> list_all lit rs' \<longrightarrow>
      score (handle_rollovers g) = sc' + 1000 \<and>
      bumper_mult (handle_rollovers g) = 2 \<and>
      bumper_mult_timer (handle_rollovers g) = 15 \<and>
      list_all (\<lambda>r. \<not> lit r) (rollovers (handle_rollovers g)) \<and>
      length (rollovers (handle_rollovers g)) = length (rollovers g)"
    using l by (simp add: handle_rollovers_def c Let_def list_all_unlit)
  have e: "\<not> (in_play (ball g) \<and> list_all lit rs') \<longrightarrow>
      score (handle_rollovers g) = sc' \<and>
      bumper_mult (handle_rollovers g) = bumper_mult g \<and>
      bumper_mult_timer (handle_rollovers g) = bumper_mult_timer g \<and>
      rollovers (handle_rollovers g) = rs'"
    by (auto simp add: handle_rollovers_def c Let_def)
  show ?thesis
    using a b d e check_rollovers_fst [of "ball g" "rollovers g" "score g"]
      check_rollovers_snd [of "ball g" "rollovers g" "score g"]
    unfolding c by simp
qed

lemma rollover_play_checks:
  "check_rollovers (ball rollover_play_game) (rollovers rollover_play_game) (score rollover_play_game)
     = (map (\<lambda>r. r\<lparr>lit := True\<rparr>) (rollovers rollover_play_game), 250)"
  by (simp add: rollover_play_game_def Game_init_def Let_def
      Rollover_init_def Ball_init_def check_def vsub_def vlength_vertical WIDTH_def BALL_RADIUS_def)

theorem rollover_rules_witness:
  "lit (hd (rollovers rollover_play_game)) \<and>
   check (hd (rollovers rollover_play_game)) (pos (ball rollover_play_game)) 12
     = (False, hd (rollovers rollover_play_game)) \<and>
   in_play (ball rollover_play_game) \<and>
   list_all lit (fst (check_rollovers (ball rollover_play_game) (rollovers rollover_play_game)
       (score rollover_play_game))) \<and>
   score rollover_play_game = 0 \<and>
   score (handle_rollovers rollover_play_game) = 1250 \<and>
   bumper_mult (handle_rollovers rollover_play_game) = 2 \<and>
   bumper_mult_timer (handle_rollovers rollover_play_game) = 15 \<and>
   list_all (\<lambda>r. \<not> lit r) (rollovers (handle_rollovers rollover_play_game))"
proof -
  have a: "lit (hd (rollovers rollover_play_game))" "in_play (ball rollover_play_game)"
    "score rollover_play_game = 0"
    by (simp_all add: rollover_play_game_def Game_init_def Let_def)
  have b: "list_all lit (fst (check_rollovers (ball rollover_play_game)
      (rollovers rollover_play_game) (score rollover_play_game)))"
    unfolding rollover_play_checks
    by (simp add: rollover_play_game_def)
  have c: "snd (check_rollovers (ball rollover_play_game)
      (rollovers rollover_play_game) (score rollover_play_game)) = 250"
    unfolding rollover_play_checks by simp
  show ?thesis
    using rollover_rules [of "hd (rollovers rollover_play_game)" "pos (ball rollover_play_game)" 12
        "ball rollover_play_game" "[]" 0 rollover_play_game] a b c
    by simp
qed

section \<open>Bumpers\<close>

lemma bumper_hit_hit:
  assumes "vlength (vsub (pos (ball g)) (bumper_pos bm)) + EPS < radius (ball g) + bumper_radius bm"
  shows "bumper_hit bm g =
     (let b = ball g;
          d = vlength (vsub (pos b) (bumper_pos bm)) + EPS;
          n = sdiv (vsub (pos b) (bumper_pos bm)) d;
          g1 = g\<lparr>ball := b\<lparr>pos := vadd (pos b) (smul (radius b + bumper_radius bm - d) n),
                             vel := vadd (reflect (vel b) n RESTI_BALL_BUMPER) (smul 200 n)\<rparr>\<rparr>
      in if in_play b then g1\<lparr>score := score g + bumper_score bm * bumper_mult g\<rparr> else g1)"
  using assms by (simp add: bumper_hit_def circle_circle_collision_def Let_def)

lemma dead_centre_speed:
  assumes L: "0 < vlength diff" and s: "0 < s"
  shows "dot (vadd (reflect (smul (- s / vlength diff) diff) (sdiv diff (vlength diff + EPS)) e)
                (smul 200 (sdiv diff (vlength diff + EPS))))
             (sdiv diff (vlength diff))
         = s * ((1 + e) * (vlength diff / (vlength diff + EPS))\<^sup>2 - 1)
           + 200 * (vlength diff / (vlength diff + EPS))"
proof -
  let ?L = "vlength diff"
  let ?d = "?L + EPS"
  let ?n = "sdiv diff ?d"
  let ?u = "sdiv diff ?L"
  let ?v = "smul (- s / ?L) diff"
  have d: "0 < ?d" using L by (simp add: EPS_def)
  have vn: "dot ?v ?n = - s * (?L / ?d)"
    using L d by (simp add: dot_linear dot_sdiv dot_self power2_eq_square)
  have vu: "dot ?v ?u = - s"
    using L by (simp add: dot_linear dot_sdiv dot_self power2_eq_square)
  have nu: "dot ?n ?u = ?L / ?d"
    using L d by (simp add: dot_sdiv dot_self power2_eq_square)
  have alg: "- s - (1 + e) * (- s * k) * k + 200 * k = s * ((1 + e) * k\<^sup>2 - 1) + 200 * k"
    for k :: real
    by (simp add: power2_eq_square algebra_simps)
  have "dot ?v ?n < 0"
    unfolding vn using s L d by (simp add: zero_less_divide_iff zero_less_mult_iff)
  then have "reflect ?v ?n e = vsub ?v (smul ((1 + e) * dot ?v ?n) ?n)"
    by (simp add: reflect_def Let_def)
  then have "dot (vadd (reflect ?v ?n e) (smul 200 ?n)) ?u
      = dot ?v ?u - (1 + e) * dot ?v ?n * dot ?n ?u + 200 * dot ?n ?u"
    by (simp add: dot_linear)
  also have "\<dots> = s * ((1 + e) * (?L / ?d)\<^sup>2 - 1) + 200 * (?L / ?d)"
    unfolding vn vu nu by (rule alg)
  finally show ?thesis .
qed

lemma near_one_bounds:
  assumes "0 < L"
  shows "300 * ((1 + RESTI_BALL_BUMPER) * (L / (L + EPS))\<^sup>2 - 1) + 200 * (L / (L + EPS))
           < 300 * RESTI_BALL_BUMPER + 200"
    and "300 * RESTI_BALL_BUMPER + 200 - 1430 * EPS / L
           < 300 * ((1 + RESTI_BALL_BUMPER) * (L / (L + EPS))\<^sup>2 - 1) + 200 * (L / (L + EPS))"
proof -
  define k where "k = L / (L + EPS)"
  have e: "0 < EPS" by (simp add: EPS_def)
  have k0: "0 < k" using assms e by (simp add: k_def)
  have k1: "k < 1" using assms e by (simp add: k_def)
  have "k\<^sup>2 < 1\<^sup>2" using k0 k1 by (intro power_strict_mono) simp_all
  then have k2: "k\<^sup>2 < 1" by simp
  have up: "300 * ((1 + RESTI_BALL_BUMPER) * k\<^sup>2 - 1) + 200 * k < 300 * RESTI_BALL_BUMPER + 200"
    using k1 k2 by (simp add: RESTI_BALL_BUMPER_def)
  have g: "1 - k = EPS / (L + EPS)"
    using assms e by (simp add: k_def field_simps)
  have "EPS / (L + EPS) < EPS / L"
    using assms e by (simp add: field_simps)
  then have g': "1 - k < EPS / L" using g by simp
  have "615 * (1 - k\<^sup>2) + 200 * (1 - k) = (1 - k) * (615 * (1 + k) + 200)"
    by (simp add: power2_eq_square algebra_simps)
  also have "\<dots> < (1 - k) * 1430"
    using k0 k1 by (intro mult_strict_left_mono) simp_all
  also have "\<dots> < EPS / L * 1430"
    using g' by (intro mult_strict_right_mono) simp_all
  finally have f: "615 * (1 - k\<^sup>2) + 200 * (1 - k) < EPS / L * 1430" .
  define X where "X = 1430 * EPS / L"
  define K where "K = k\<^sup>2"
  have xe: "EPS / L * 1430 = X"
    by (simp add: X_def mult.commute)
  have "615 * (1 - K) + 200 * (1 - k) < X"
    using f unfolding xe K_def [symmetric] .
  then have "300 * (105 / 100) + 200 - X < 300 * ((1 + 105 / 100) * K - 1) + 200 * k"
    by simp
  then have lo: "300 * RESTI_BALL_BUMPER + 200 - 1430 * EPS / L
           < 300 * ((1 + RESTI_BALL_BUMPER) * k\<^sup>2 - 1) + 200 * k"
    by (simp only: X_def K_def RESTI_BALL_BUMPER_def)
  show "300 * ((1 + RESTI_BALL_BUMPER) * (L / (L + EPS))\<^sup>2 - 1) + 200 * (L / (L + EPS))
           < 300 * RESTI_BALL_BUMPER + 200"
    using up by (simp add: k_def)
  show "300 * RESTI_BALL_BUMPER + 200 - 1430 * EPS / L
           < 300 * ((1 + RESTI_BALL_BUMPER) * (L / (L + EPS))\<^sup>2 - 1) + 200 * (L / (L + EPS))"
    using lo by (simp add: k_def)
qed

text \<open>
  Claim C9, as the code has it. With \<open>L\<close> the distance of the centres, \<open>d = L + 1e-9\<close>
  and \<open>n\<close> the centre difference divided by \<open>d\<close>: a bumper is hit when \<open>d\<close> is below the
  sum of the radii; then the ball is moved by the positive multiple \<open>radii - d\<close> of \<open>n\<close>,
  its velocity is reflected on \<open>n\<close> with the bumper restitution and \<open>200 * n\<close> is added, and
  the score grows by the bumper's value times the bumper multiplier if the ball is in play
  and not at all otherwise. For a ball arriving dead-centre at speed 300 the outgoing speed
  along the unit normal is \<open>300 * ((1 + 1.05) * k\<^sup>2 - 1) + 200 * k\<close> with \<open>k = L / d\<close>, which
  is below \<open>300 * 1.05 + 200\<close> and above it less \<open>1430 * 1e-9 / L\<close>. A bumper that is not hit
  changes nothing.
\<close>

theorem bumper_hit_response:
  "(let b = ball g;
        diff = vsub (pos b) (bumper_pos bm);
        L = vlength diff;
        d = L + EPS;
        n = sdiv diff d;
        k = L / d;
        g' = bumper_hit bm g
    in (\<not> d < radius b + bumper_radius bm \<longrightarrow> g' = g) \<and>
       (d < radius b + bumper_radius bm \<longrightarrow>
          pos (ball g') = vadd (pos b) (smul (radius b + bumper_radius bm - d) n) \<and>
          0 < radius b + bumper_radius bm - d \<and>
          vel (ball g') = vadd (reflect (vel b) n RESTI_BALL_BUMPER) (smul 200 n) \<and>
          score g' = (if in_play b then score g + bumper_score bm * bumper_mult g else score g) \<and>
          (0 < L \<and> vel b = smul (- 300 / L) diff \<longrightarrow>
             dot (vel (ball g')) (sdiv diff L)
               = 300 * ((1 + RESTI_BALL_BUMPER) * k\<^sup>2 - 1) + 200 * k \<and>
             dot (vel (ball g')) (sdiv diff L) < 300 * RESTI_BALL_BUMPER + 200 \<and>
             300 * RESTI_BALL_BUMPER + 200 - 1430 * EPS / L < dot (vel (ball g')) (sdiv diff L))))"
proof -
  let ?b = "ball g"
  let ?diff = "vsub (pos ?b) (bumper_pos bm)"
  let ?L = "vlength ?diff"
  let ?d = "?L + EPS"
  let ?n = "sdiv ?diff ?d"
  let ?k = "?L / ?d"
  let ?g' = "bumper_hit bm g"
  have miss: "\<not> ?d < radius ?b + bumper_radius bm \<longrightarrow> ?g' = g"
    by (simp add: bumper_hit_miss hit_circle_iff)
  have hit: "pos (ball ?g') = vadd (pos ?b) (smul (radius ?b + bumper_radius bm - ?d) ?n) \<and>
          0 < radius ?b + bumper_radius bm - ?d \<and>
          vel (ball ?g') = vadd (reflect (vel ?b) ?n RESTI_BALL_BUMPER) (smul 200 ?n) \<and>
          score ?g' = (if in_play ?b then score g + bumper_score bm * bumper_mult g else score g)"
    if h: "?d < radius ?b + bumper_radius bm"
    using h by (simp add: bumper_hit_hit [OF h] Let_def)
  have centre: "dot (vel (ball ?g')) (sdiv ?diff ?L)
               = 300 * ((1 + RESTI_BALL_BUMPER) * ?k\<^sup>2 - 1) + 200 * ?k \<and>
             dot (vel (ball ?g')) (sdiv ?diff ?L) < 300 * RESTI_BALL_BUMPER + 200 \<and>
             300 * RESTI_BALL_BUMPER + 200 - 1430 * EPS / ?L < dot (vel (ball ?g')) (sdiv ?diff ?L)"
    if h: "?d < radius ?b + bumper_radius bm" and L: "0 < ?L" and v: "vel ?b = smul (- 300 / ?L) ?diff"
  proof -
    have "vel (ball ?g') = vadd (reflect (smul (- 300 / ?L) ?diff) ?n RESTI_BALL_BUMPER) (smul 200 ?n)"
      using hit [OF h] v by simp
    then have "dot (vel (ball ?g')) (sdiv ?diff ?L)
               = 300 * ((1 + RESTI_BALL_BUMPER) * ?k\<^sup>2 - 1) + 200 * ?k"
      using dead_centre_speed [OF L, of 300 RESTI_BALL_BUMPER] by simp
    then show ?thesis
      using near_one_bounds [OF L] by simp
  qed
  show ?thesis
    unfolding Let_def using miss hit centre by blast
qed

theorem bumper_hit_response_witness:
  "vlength (vsub (pos (ball bumper_shot)) (bumper_pos (last table_bumpers))) + EPS
     < radius (ball bumper_shot) + bumper_radius (last table_bumpers) \<and>
   0 < vlength (vsub (pos (ball bumper_shot)) (bumper_pos (last table_bumpers))) \<and>
   vel (ball bumper_shot)
     = smul (- 300 / vlength (vsub (pos (ball bumper_shot)) (bumper_pos (last table_bumpers))))
         (vsub (pos (ball bumper_shot)) (bumper_pos (last table_bumpers))) \<and>
   in_play (ball bumper_shot) \<and>
   score (bumper_hit (last table_bumpers) bumper_shot) = 75 \<and>
   dot (vel (ball (bumper_hit (last table_bumpers) bumper_shot))) (0, - 1)
     < 300 * RESTI_BALL_BUMPER + 200 \<and>
   300 * RESTI_BALL_BUMPER + 200 - 1430 * EPS / 35
     < dot (vel (ball (bumper_hit (last table_bumpers) bumper_shot))) (0, - 1)"
proof -
  let ?bm = "last table_bumpers"
  have p: "vsub (pos (ball bumper_shot)) (bumper_pos ?bm) = (0, - 35)"
    by (simp add: bumper_shot_def table_bumpers_def Ball_init_def WIDTH_def vsub_def)
  have L: "vlength (0, - 35) = 35" by (simp add: vlength_vertical)
  have h: "vlength (vsub (pos (ball bumper_shot)) (bumper_pos ?bm)) + EPS
             < radius (ball bumper_shot) + bumper_radius ?bm"
    unfolding p L
    by (simp add: bumper_shot_def table_bumpers_def Ball_init_def BALL_RADIUS_def EPS_def)
  have v: "vel (ball bumper_shot) = smul (- 300 / 35) (0, - 35)"
    by (simp add: bumper_shot_def smul_def)
  have u: "sdiv (0, - 35) 35 = (0, - 1)"
    by (simp add: sdiv_def)
  have s: "in_play (ball bumper_shot)" "score bumper_shot = 0" "bumper_mult bumper_shot = 1"
    "bumper_score ?bm = 75"
    by (simp_all add: bumper_shot_def Game_init_def Let_def table_bumpers_def)
  have h': "35 + EPS < radius (ball bumper_shot) + bumper_radius ?bm"
    using h unfolding p L .
  have c: "(0::real) < 35 \<and> vel (ball bumper_shot) = smul (- 300 / 35) (0, - 35)"
    using v by simp
  note r = bumper_hit_response [of bumper_shot ?bm, unfolded Let_def p L u]
  from r h' c have o: "dot (vel (ball (bumper_hit ?bm bumper_shot))) (0, - 1)
        < 300 * RESTI_BALL_BUMPER + 200"
    "300 * RESTI_BALL_BUMPER + 200 - 1430 * EPS / 35
        < dot (vel (ball (bumper_hit ?bm bumper_shot))) (0, - 1)"
    by blast+
  from r h' have "score (bumper_hit ?bm bumper_shot)
      = (if in_play (ball bumper_shot)
         then score bumper_shot + bumper_score ?bm * bumper_mult bumper_shot
         else score bumper_shot)"
    by blast
  then have sc: "score (bumper_hit ?bm bumper_shot) = 75"
    by (simp add: s)
  have v': "vel (ball bumper_shot)
     = smul (- 300 / vlength (vsub (pos (ball bumper_shot)) (bumper_pos ?bm)))
         (vsub (pos (ball bumper_shot)) (bumper_pos ?bm))"
    unfolding p L by (rule v)
  have l: "0 < vlength (vsub (pos (ball bumper_shot)) (bumper_pos ?bm))"
    unfolding p L by simp
  show ?thesis
    using h l v' s(1) sc o by (intro conjI)
qed

lemma bumper_shot_first:
  "fold bumper_hit (butlast table_bumpers) bumper_shot = bumper_shot"
  by (rule fold_bumper_hit_miss)
    (simp add: bumper_shot_def table_bumpers_def Game_init_def Let_def Ball_init_def WIDTH_def
      BALL_RADIUS_def hit_circle_iff vlength_eps_less EPS_def vec_simps)

lemma bumper_shot_fold:
  "handle_bumper_collisions bumper_shot = bumper_hit (last table_bumpers) bumper_shot"
proof -
  have "bumpers bumper_shot = butlast table_bumpers @ [last table_bumpers]"
    by (simp add: bumper_shot_def Game_init_def Let_def table_bumpers_def)
  then show ?thesis
    by (simp add: handle_bumper_collisions_def bumper_shot_first)
qed

lemma bumper_shot_out:
  "dot (vel (ball (handle_bumper_collisions bumper_shot))) (0, - 1)
     = 300 * ((1 + RESTI_BALL_BUMPER) * (35 / (35 + EPS))\<^sup>2 - 1) + 200 * (35 / (35 + EPS))"
proof -
  let ?bm = "last table_bumpers"
  have p: "vsub (pos (ball bumper_shot)) (bumper_pos ?bm) = (0, - 35)"
    by (simp add: bumper_shot_def table_bumpers_def Ball_init_def WIDTH_def vsub_def)
  have L: "vlength (0, - 35) = 35" by (simp add: vlength_vertical)
  have h: "vlength (vsub (pos (ball bumper_shot)) (bumper_pos ?bm)) + EPS
             < radius (ball bumper_shot) + bumper_radius ?bm"
    unfolding p L
    by (simp add: bumper_shot_def table_bumpers_def Ball_init_def BALL_RADIUS_def EPS_def)
  have v: "vel (ball bumper_shot) = smul (- 300 / vlength (0, - 35)) (0, - 35)"
    unfolding L by (simp add: bumper_shot_def smul_def)
  have u: "sdiv (0, - 35) (vlength (0, - 35)) = (0, - 1)"
    unfolding L by (simp add: sdiv_def)
  have "vel (ball (bumper_hit ?bm bumper_shot))
      = vadd (reflect (smul (- 300 / vlength (0, - 35)) (0, - 35))
               (sdiv (0, - 35) (vlength (0, - 35) + EPS)) RESTI_BALL_BUMPER)
             (smul 200 (sdiv (0, - 35) (vlength (0, - 35) + EPS)))"
    unfolding bumper_hit_hit [OF h] Let_def p v [symmetric] by simp
  then have "dot (vel (ball (bumper_hit ?bm bumper_shot))) (sdiv (0, - 35) (vlength (0, - 35)))
      = 300 * ((1 + RESTI_BALL_BUMPER) * (vlength (0, - 35) / (vlength (0, - 35) + EPS))\<^sup>2 - 1)
        + 200 * (vlength (0, - 35) / (vlength (0, - 35) + EPS))"
    using dead_centre_speed [of "(0, - 35)" 300 RESTI_BALL_BUMPER] L by simp
  then show ?thesis
    unfolding bumper_shot_fold u unfolding L .
qed

text \<open>
  Claim C9 as stated fails: the ball in play arriving dead-centre at 300 on the lowest bumper
  of the table leaves the bumper handler with an outgoing normal speed strictly below
  \<open>300 * 1.05 + 200\<close>, because the normal the code uses is shorter than a unit vector.
\<close>

theorem bumper_shot_below_nominal:
  "in_play (ball bumper_shot) \<and>
   vsub (pos (ball bumper_shot)) (bumper_pos (last table_bumpers)) = (0, - 35) \<and>
   vel (ball bumper_shot) = (0, 300) \<and>
   dot (vel (ball bumper_shot)) (0, - 1) = - 300 \<and>
   dot (vel (ball (handle_bumper_collisions bumper_shot))) (0, - 1) < 300 * RESTI_BALL_BUMPER + 200"
proof -
  have "in_play (ball bumper_shot) \<and>
      vsub (pos (ball bumper_shot)) (bumper_pos (last table_bumpers)) = (0, - 35) \<and>
      vel (ball bumper_shot) = (0, 300) \<and>
      dot (vel (ball bumper_shot)) (0, - 1) = - 300"
    by (simp add: bumper_shot_def dot_def table_bumpers_def Ball_init_def WIDTH_def vsub_def)
  then show ?thesis
    unfolding bumper_shot_out using near_one_bounds(1) [of 35] by (simp add: dot_def)
qed

section \<open>The idle ball\<close>

lemma wall_hit_idle:
  "\<not> in_play (ball g) \<Longrightarrow> score (wall_hit w g) = score g \<and> \<not> in_play (ball (wall_hit w g))"
  by (simp add: wall_hit_def Let_def split: prod.splits)

lemma fold_wall_hit_idle:
  "\<not> in_play (ball g) \<Longrightarrow>
   score (fold wall_hit ws g) = score g \<and> \<not> in_play (ball (fold wall_hit ws g))"
  by (induction ws arbitrary: g) (simp_all add: wall_hit_idle)

lemma boundary_clamp_in_play: "in_play (boundary_clamp b) = in_play b"
  by (simp add: boundary_clamp_def Let_def)

lemma handle_wall_collisions_idle:
  "\<not> in_play (ball g) \<Longrightarrow>
   score (handle_wall_collisions g) = score g \<and> \<not> in_play (ball (handle_wall_collisions g))"
  using fold_wall_hit_idle [of g "walls g"]
  by (simp add: handle_wall_collisions_def Let_def boundary_clamp_in_play)

lemma bumper_hit_idle:
  "\<not> in_play (ball g) \<Longrightarrow> score (bumper_hit bm g) = score g \<and> \<not> in_play (ball (bumper_hit bm g))"
  by (simp add: bumper_hit_def Let_def split: prod.splits)

lemma fold_bumper_hit_idle:
  "\<not> in_play (ball g) \<Longrightarrow>
   score (fold bumper_hit bs g) = score g \<and> \<not> in_play (ball (fold bumper_hit bs g))"
  by (induction bs arbitrary: g) (simp_all add: bumper_hit_idle)

lemma handle_bumper_collisions_idle:
  "\<not> in_play (ball g) \<Longrightarrow>
   score (handle_bumper_collisions g) = score g \<and> \<not> in_play (ball (handle_bumper_collisions g))"
  by (simp add: handle_bumper_collisions_def fold_bumper_hit_idle)

lemma handle_rollovers_ball: "ball (handle_rollovers g) = ball g"
  by (simp add: handle_rollovers_def Let_def split: prod.splits)

lemma handle_rollovers_idle:
  assumes "\<not> in_play (ball g)"
  shows "score (handle_rollovers g) = score g"
proof -
  obtain rs sc where c: "check_rollovers (ball g) (rollovers g) (score g) = (rs, sc)"
    by (cases "check_rollovers (ball g) (rollovers g) (score g)")
  have "sc = score g"
    using check_rollovers_snd [of "ball g" "rollovers g" "score g"] assms c by simp
  then show ?thesis
    using assms by (simp add: handle_rollovers_def c Let_def)
qed

lemma handle_flipper_collision_idle:
  "\<not> in_play (ball g) \<Longrightarrow>
   score (handle_flipper_collision f g) = score g \<and>
   \<not> in_play (ball (handle_flipper_collision f g))"
  by (simp add: handle_flipper_collision_def Let_def split: prod.splits)

lemma timers_ball_score:
  "ball (bonus_timers dt g) = ball g" "score (bonus_timers dt g) = score g"
  "ball (tilt_timers dt g) = ball g" "score (tilt_timers dt g) = score g"
  "ball (ball_save_timers dt g) = ball g" "score (ball_save_timers dt g) = score g"
  by (simp_all add: bonus_timers_def tilt_timers_def ball_save_timers_def Let_def)

lemma update_steps_idle:
  assumes "\<not> in_play (ball g)"
  shows "score (update_steps dt g) = score g \<and> \<not> in_play (ball (update_steps dt g))"
proof -
  define g3 where "g3 = g\<lparr>left_flipper := Flipper_update dt (left_flipper g),
    right_flipper := Flipper_update dt (right_flipper g)\<rparr>"
  have p: "apply_physics dt (ball g) = ball g"
    using assms by (simp add: apply_physics_def)
  have s3: "score g3 = score g" "\<not> in_play (ball g3)"
    using assms by (simp_all add: g3_def)
  note w = handle_wall_collisions_idle [OF s3(2)]
  note b = handle_bumper_collisions_idle [OF w [THEN conjunct2]]
  have r: "score (handle_rollovers (handle_bumper_collisions (handle_wall_collisions g3))) = score g"
    "\<not> in_play (ball (handle_rollovers (handle_bumper_collisions (handle_wall_collisions g3))))"
    using w b s3 by (simp_all add: handle_rollovers_ball handle_rollovers_idle)
  note l = handle_flipper_collision_idle [OF r(2)]
  note rr = handle_flipper_collision_idle [OF l [THEN conjunct2]]
  have e: "g\<lparr>left_flipper := Flipper_update dt (left_flipper g),
      right_flipper := Flipper_update dt (right_flipper g), ball := ball g\<rparr> = g3"
    by (simp add: g3_def)
  show ?thesis
    unfolding update_steps_def Let_def
    using r l rr by (simp add: timers_ball_score p e)
qed

lemma idle_game_ball: "ball idle_game = Ball_init launch_lane"
  by (simp add: idle_game_def reset_ball_def)

text \<open>
  Claim C5, as the code has it. While the ball is not in play, \<open>apply_physics\<close> leaves the
  ball as it is; the wall, bumper, rollover and flipper handlers and the whole update leave
  the score as it is and the ball not in play; the rollover handler leaves the ball as it is.
  Nothing is said about position and velocity under the wall, bumper and flipper handlers,
  whose push-out and velocity response do not ask whether the ball is in play.
\<close>

theorem idle_ball_rules:
  assumes "\<not> in_play (ball g)"
  shows "apply_physics dt (ball g) = ball g \<and>
    score (handle_wall_collisions g) = score g \<and>
    \<not> in_play (ball (handle_wall_collisions g)) \<and>
    score (handle_bumper_collisions g) = score g \<and>
    \<not> in_play (ball (handle_bumper_collisions g)) \<and>
    score (handle_rollovers g) = score g \<and>
    ball (handle_rollovers g) = ball g \<and>
    score (handle_flipper_collision f g) = score g \<and>
    \<not> in_play (ball (handle_flipper_collision f g)) \<and>
    score (update w dt g) = score g \<and>
    \<not> in_play (ball (update w dt g))"
proof -
  have p: "apply_physics dt (ball g) = ball g"
    using assms by (simp add: apply_physics_def)
  have d: "drain_check w h = h" if "\<not> in_play (ball h)" for h
    using that by (simp add: drain_check_def)
  have u: "score (update w dt g) = score g \<and> \<not> in_play (ball (update w dt g))"
    using update_steps_idle [OF assms, of dt] assms by (simp add: update_def d)
  show ?thesis
    using p u handle_wall_collisions_idle [OF assms] handle_bumper_collisions_idle [OF assms]
      handle_rollovers_idle [OF assms] handle_rollovers_ball [of g]
      handle_flipper_collision_idle [OF assms, of f]
    by simp
qed

theorem idle_ball_rules_witness:
  "\<not> in_play (ball idle_game) \<and>
   apply_physics (1 / 120) (ball idle_game) = ball idle_game \<and>
   score (handle_bumper_collisions idle_game) = 0 \<and>
   score (update True (1 / 120) idle_game) = 0 \<and>
   \<not> in_play (ball (update True (1 / 120) idle_game))"
proof -
  have h: "\<not> in_play (ball idle_game)"
    by (simp add: idle_game_ball Ball_init_def)
  have s: "score idle_game = 0"
    by (simp add: idle_game_def reset_ball_def Game_init_def Let_def)
  show ?thesis
    using idle_ball_rules [OF h, where dt = "1 / 120" and w = True] h s by simp
qed

lemma wall_hit_at_rest:
  assumes "circle_line_collision (pos (ball g)) (radius (ball g)) (wall_a w) (wall_b w)
             = (True, (0, 0), (0, 0), cp, t)"
    and "\<not> in_play (ball g)" and "vel (ball g) = (0, 0)"
  shows "wall_hit w g = g"
proof -
  have "vadd (pos (ball g)) (0, 0) = pos (ball g)"
    by (simp add: vadd_def)
  then show ?thesis
    using assms(2,3) unfolding wall_hit_def assms(1)
    by (simp add: Let_def reflect_def dot_def smul_def vadd_def)
qed

lemma launch_lane_wall_end:
  "circle_line_collision (360, 510) 12 (320, 390) (360, 510) = (True, (0, 0), (0, 0), (360, 510), 1)"
  by (simp add: circle_line_collision_def Let_def vlength_vertical EPS_def vec_simps)

lemma launch_lane_wall_start:
  "circle_line_collision (360, 510) 12 (360, 510) (330, 630) = (True, (0, 0), (0, 0), (360, 510), 0)"
  by (simp add: circle_line_collision_def Let_def vlength_vertical EPS_def vec_simps)

lemma launch_lane_wall_misses:
  "\<not> fst (circle_line_collision (360, 510) 12 (80, 140) (80, 570))"
  "\<not> fst (circle_line_collision (360, 510) 12 (80, 140) (320, 140))"
  "\<not> fst (circle_line_collision (360, 510) 12 (320, 140) (320, 390))"
  "\<not> fst (circle_line_collision (360, 510) 12 (80, 570) (170, 630))"
  "\<not> fst (circle_line_collision (360, 510) 12 (140, 530) (210, 460))"
  "\<not> fst (circle_line_collision (360, 510) 12 (360, 530) (290, 460))"
  by (simp_all add: hit_line_iff vlength_eps_less EPS_def vec_simps)

lemma fold_wall_hit_fixed:
  "\<forall>w \<in> set ws. wall_hit w g = g \<Longrightarrow> fold wall_hit ws g = g"
  by (induction ws) simp_all

lemma idle_wall_hits: "\<forall>w \<in> set table_walls. wall_hit w idle_game = idle_game"
proof -
  have b: "pos (ball idle_game) = (360, 510)" "radius (ball idle_game) = 12"
    "vel (ball idle_game) = (0, 0)" "\<not> in_play (ball idle_game)"
    by (simp_all add: idle_game_ball Ball_init_def launch_lane_def WIDTH_def HEIGHT_def
        BALL_RADIUS_def)
  have m: "wall_hit \<lparr>wall_a = p, wall_b = q, wall_score = s, wall_restitution = e\<rparr> idle_game
             = idle_game"
    if "\<not> fst (circle_line_collision (360, 510) 12 p q)" for p q s e
    by (rule wall_hit_miss) (simp add: b that)
  have h: "wall_hit \<lparr>wall_a = p, wall_b = q, wall_score = s, wall_restitution = e\<rparr> idle_game
             = idle_game"
    if "circle_line_collision (360, 510) 12 p q = (True, (0, 0), (0, 0), cp, t)" for p q s e cp t
    by (rule wall_hit_at_rest [where cp = cp and t = t]) (simp_all add: b that)
  show ?thesis
    unfolding table_walls_eq
    by (simp add: m launch_lane_wall_misses h [OF launch_lane_wall_end]
        h [OF launch_lane_wall_start])
qed

lemma idle_clamped_eq:
  "idle_clamped = idle_game\<lparr>ball := (Ball_init launch_lane)\<lparr>pos := (328, 510)\<rparr>\<rparr>"
proof -
  have w: "walls idle_game = table_walls"
    by (simp add: idle_game_def reset_ball_def Game_init_def Let_def)
  have f: "fold wall_hit (walls idle_game) idle_game = idle_game"
    unfolding w by (rule fold_wall_hit_fixed) (rule idle_wall_hits)
  have c: "boundary_clamp (Ball_init launch_lane) = (Ball_init launch_lane)\<lparr>pos := (328, 510)\<rparr>"
    by (simp add: boundary_clamp_def Let_def Ball_init_def launch_lane_def WIDTH_def HEIGHT_def
        BALL_RADIUS_def)
  show ?thesis
    unfolding idle_clamped_def handle_wall_collisions_def Let_def f idle_game_ball c ..
qed

lemma idle_bumpers:
  "\<not> in_play (ball (handle_bumper_collisions idle_clamped)) \<and>
   score (handle_bumper_collisions idle_clamped) = score idle_clamped \<and>
   0 < fst (vel (ball (handle_bumper_collisions idle_clamped))) \<and>
   328 < fst (pos (ball (handle_bumper_collisions idle_clamped)))"
proof -
  define d where "d = vlength (38, - 10) + EPS"
  define g4 where "g4 = idle_clamped\<lparr>ball := (ball idle_clamped)
       \<lparr>pos := vadd (328, 510) (smul (40 - d) (sdiv (38, - 10) d)),
        vel := vadd (reflect (0, 0) (sdiv (38, - 10) d) RESTI_BALL_BUMPER)
                 (smul 200 (sdiv (38, - 10) d))\<rparr>\<rparr>"
  have b: "pos (ball idle_clamped) = (328, 510)" "radius (ball idle_clamped) = 12"
    "vel (ball idle_clamped) = (0, 0)" "\<not> in_play (ball idle_clamped)"
    by (simp_all add: idle_clamped_eq Ball_init_def BALL_RADIUS_def)
  have bs: "bumpers idle_clamped = table_bumpers"
    by (simp add: idle_clamped_eq idle_game_def reset_ball_def Game_init_def Let_def)
  have d0: "0 < d"
    using vlength_nonneg [of "(38, - 10)"] by (simp add: d_def EPS_def)
  have d40: "d < 40"
    unfolding d_def by (simp add: vlength_eps_less EPS_def length_squared_def power2_eq_square)
  have first: "fold bumper_hit (take 4 table_bumpers) idle_clamped = idle_clamped"
    by (rule fold_bumper_hit_miss)
      (simp add: table_bumpers_eq b hit_circle_iff vlength_eps_less EPS_def vec_simps)
  have hit: "bumper_hit \<lparr>bumper_pos = (290, 520), bumper_radius = 28, bumper_score = 100\<rparr>
      idle_clamped = g4"
  proof -
    have "vlength (vsub (pos (ball idle_clamped)) (290, 520)) + EPS < radius (ball idle_clamped) + 28"
      using d40 by (simp add: b vsub_def d_def)
    then show ?thesis
      by (simp add: bumper_hit_hit Let_def b vsub_def g4_def d_def)
  qed
  have x4: "fst (pos (ball g4)) = 328 + (40 - d) * (38 / d)"
    by (simp add: g4_def vadd_def smul_def sdiv_def)
  have pos4: "0 < (40 - d) * (38 / d)"
    using d0 d40 by simp
  have miss: "bumper_hit \<lparr>bumper_pos = (230, 620), bumper_radius = 24, bumper_score = 75\<rparr> g4 = g4"
  proof (rule bumper_hit_miss)
    have "radius (ball g4) + 24 \<le> \<bar>fst (vsub (pos (ball g4)) (230, 620))\<bar>"
      using pos4 by (simp add: vsub_def x4) (simp add: g4_def b)
    then show "\<not> fst (circle_circle_collision (pos (ball g4)) (radius (ball g4))
        (bumper_pos \<lparr>bumper_pos = (230, 620), bumper_radius = 24, bumper_score = 75\<rparr>)
        (bumper_radius \<lparr>bumper_pos = (230, 620), bumper_radius = 24, bumper_score = 75\<rparr>))"
      by (simp add: hit_circle_iff vlength_ge_fst)
  qed
  have "table_bumpers = take 4 table_bumpers
      @ [\<lparr>bumper_pos = (290, 520), bumper_radius = 28, bumper_score = 100\<rparr>,
         \<lparr>bumper_pos = (230, 620), bumper_radius = 24, bumper_score = 75\<rparr>]"
    by (simp add: table_bumpers_eq)
  then have "handle_bumper_collisions idle_clamped =
      fold bumper_hit [\<lparr>bumper_pos = (290, 520), bumper_radius = 28, bumper_score = 100\<rparr>,
         \<lparr>bumper_pos = (230, 620), bumper_radius = 24, bumper_score = 75\<rparr>]
        (fold bumper_hit (take 4 table_bumpers) idle_clamped)"
    unfolding handle_bumper_collisions_def bs by (metis fold_append comp_apply)
  then have e: "handle_bumper_collisions idle_clamped = g4"
    by (simp add: first hit miss)
  have v4: "fst (vel (ball g4)) = 200 * (38 / d)"
    by (simp add: g4_def reflect_def Let_def dot_def vadd_def smul_def sdiv_def)
  have "0 < 200 * (38 / d)" using d0 by simp
  then show ?thesis
    unfolding e using pos4 by (simp add: v4 x4) (simp add: g4_def b)
qed

text \<open>
  Claim C5 as stated fails in the first frame of every session. The idle ball starts at the
  launch lane; the boundary clamp of the wall handler moves it to x = 328, inside the reach
  of the bumper at (290, 520); the bumper handler then changes both its position and its
  velocity, while the ball is still not in play.
\<close>

theorem idle_ball_kicked_by_bumper:
  "pos (ball idle_game) = launch_lane \<and>
   \<not> in_play (ball idle_clamped) \<and>
   pos (ball idle_clamped) = (328, 510) \<and>
   vel (ball idle_clamped) = (0, 0) \<and>
   \<not> in_play (ball (handle_bumper_collisions idle_clamped)) \<and>
   vel (ball (handle_bumper_collisions idle_clamped)) \<noteq> vel (ball idle_clamped) \<and>
   pos (ball (handle_bumper_collisions idle_clamped)) \<noteq> pos (ball idle_clamped)"
proof -
  have b: "pos (ball idle_clamped) = (328, 510)" "vel (ball idle_clamped) = (0, 0)"
    "\<not> in_play (ball idle_clamped)"
    by (simp_all add: idle_clamped_eq Ball_init_def)
  have "pos (ball idle_game) = launch_lane"
    by (simp add: idle_game_ball Ball_init_def)
  then show ?thesis
    using idle_bumpers b by auto
qed

end
